theory Spec2Isabelle
  imports Complex_Main "HOL-Library.Sublist"
begin

section \<open>The spreadsheet-to-bSDD converter (Excel2bSDD\_converter.py)\<close>

text \<open>
  The converter reads eight sheets of a workbook into dataframes, maps every row of a
  sheet to a copy of a template dictionary (\<open>jsonify\<close>), links child rows to their
  parents by code (\<open>excel2bsdd\<close>), optionally removes null entries
  (\<open>clean_nones\<close>) and writes the document (the \<open>__main__\<close> block).

  The model follows the Python text. Exceptions are values of type \<open>error\<close>, the lines
  printed by \<open>jsonify\<close> are returned next to the outcome, and in-place mutation of the
  output tree is written as an update of the tree. The libraries the script calls are
  outside the repository: \<open>ast.literal_eval\<close>, \<open>load_excel\<close>'s pandas reader and the
  module \<open>JSON_templates\<close> are parameters of the functions that use them.
\<close>

subsection \<open>Python values\<close>

text \<open>
  The values that reach the output tree: \<open>None\<close>, booleans, integers, finite floats
  (by their exact rational value), strings, lists, and dictionaries with string keys in
  insertion order.
\<close>

datatype pyval =
    VNone
  | VBool bool
  | VInt int
  | VFloat rat
  | VStr string
  | VList "pyval list"
  | VDict "(string \<times> pyval) list"

type_synonym dict = "(string \<times> pyval) list"

datatype error =
    KeyError
  | IndexError
  | StopIteration
  | TypeError
  | AttributeError
  | LiteralError
  | IOError

text \<open>Python's \<open>==\<close>: numbers and booleans compare by value across their types, lists
  element by element, dictionaries key by key whatever the order.\<close>

function py_eq :: "pyval \<Rightarrow> pyval \<Rightarrow> bool" where
  "py_eq VNone w = (w = VNone)"
| "py_eq (VBool a) w =
     (case w of VBool b \<Rightarrow> a = b | VInt j \<Rightarrow> of_bool a = j | VFloat r \<Rightarrow> of_bool a = r
      | _ \<Rightarrow> False)"
| "py_eq (VInt i) w =
     (case w of VBool b \<Rightarrow> i = of_bool b | VInt j \<Rightarrow> i = j | VFloat r \<Rightarrow> of_int i = r
      | _ \<Rightarrow> False)"
| "py_eq (VFloat q) w =
     (case w of VBool b \<Rightarrow> q = of_bool b | VInt j \<Rightarrow> q = of_int j | VFloat r \<Rightarrow> q = r
      | _ \<Rightarrow> False)"
| "py_eq (VStr s) w = (w = VStr s)"
| "py_eq (VList xs) w =
     (case w of
        VList ys \<Rightarrow> length xs = length ys \<and> list_all (\<lambda>(x, y). py_eq x y) (zip xs ys)
      | _ \<Rightarrow> False)"
| "py_eq (VDict d) w =
     (case w of
        VDict d' \<Rightarrow>
          length d = length d' \<and>
          list_all (\<lambda>(key, val). case map_of d' key of None \<Rightarrow> False
                                  | Some val' \<Rightarrow> py_eq val val') d
      | _ \<Rightarrow> False)"
  by pat_completeness auto
termination
proof (relation "measure (\<lambda>(v, w). size v)")
  show "wf (measure (\<lambda>(v, w). size v))" by simp
next
  fix xs ys :: "pyval list" and w :: pyval and z :: "pyval \<times> pyval" and x y :: pyval
  assume "z \<in> set (zip xs ys)" "(x, y) = z"
  then have "x \<in> set xs" by (auto dest: set_zip_leftD)
  then have "size x < Suc (size_list size xs)"
    by (simp add: less_Suc_eq_le size_list_estimation')
  then show "((x, y), VList xs, w) \<in> measure (\<lambda>(v, w). size v)" by simp
next
  fix d d' :: dict and w val val' :: pyval and key :: string and z :: "string \<times> pyval"
  assume "z \<in> set d" "(key, val) = z"
  then have "(key, val) \<in> set d" by simp
  then have "size val < Suc (size_list (size_prod (\<lambda>x. 0) size) d)"
    by (induction d) auto
  then show "((val, val'), VDict d, w) \<in> measure (\<lambda>(v, w). size v)" by simp
qed

subsection \<open>Dictionary and sequence operations\<close>

text \<open>The keys in insertion order; \<open>k in d\<close> is membership among them.\<close>

definition keys :: "(string \<times> 'v) list \<Rightarrow> string list" where
  "keys d = map fst d"

text \<open>\<open>d[k] = v\<close>: an existing key keeps its place, a new key goes last.\<close>

fun dict_set :: "string \<Rightarrow> 'v \<Rightarrow> (string \<times> 'v) list \<Rightarrow> (string \<times> 'v) list" where
  "dict_set k v [] = [(k, v)]"
| "dict_set k v ((k', v') # d) = (if k' = k then (k, v) # d else (k', v') # dict_set k v d)"

text \<open>\<open>d.pop(k)\<close> for a key that is present.\<close>

definition dict_pop :: "string \<Rightarrow> dict \<Rightarrow> dict" where
  "dict_pop k d = filter (\<lambda>(k', v). k' \<noteq> k) d"

text \<open>\<open>x[k]\<close> for a string \<open>k\<close>: a missing key raises KeyError; a string, a list and
  every other value raise TypeError (indices must be integers, or not subscriptable).\<close>

fun getitem :: "pyval \<Rightarrow> string \<Rightarrow> error + pyval" where
  "getitem (VDict d) k = (case map_of d k of None \<Rightarrow> Inl KeyError | Some v \<Rightarrow> Inr v)"
| "getitem v k = Inl TypeError"

text \<open>The items a \<open>for\<close> loop or a generator draws from a value: the elements of a
  list, the keys of a dictionary, the characters of a string.\<close>

fun py_iter :: "pyval \<Rightarrow> error + pyval list" where
  "py_iter (VList xs) = Inr xs"
| "py_iter (VDict d) = Inr (map (\<lambda>(k, v). VStr k) d)"
| "py_iter (VStr s) = Inr (map (\<lambda>c. VStr [c]) s)"
| "py_iter v = Inl TypeError"

text \<open>\<open>next(item for item in items if item["Code"] == related)\<close>, by the position of
  the item found: the generator tests the items in order, an item it cannot subscript
  raises, and running out of items raises StopIteration.\<close>

fun first_match :: "pyval list \<Rightarrow> pyval \<Rightarrow> error + nat" where
  "first_match [] related = Inl StopIteration"
| "first_match (item # items) related =
     (case getitem item ''Code'' of
        Inl e \<Rightarrow> Inl e
      | Inr code \<Rightarrow>
          if py_eq code related then Inr 0
          else (case first_match items related of Inl e \<Rightarrow> Inl e | Inr i \<Rightarrow> Inr (Suc i)))"

text \<open>\<open>item[field].append(child)\<close>, returning the item as it is afterwards.\<close>

fun append_to :: "pyval \<Rightarrow> string \<Rightarrow> pyval \<Rightarrow> error + pyval" where
  "append_to (VDict d) field child =
     (case map_of d field of
        None \<Rightarrow> Inl KeyError
      | Some (VList xs) \<Rightarrow> Inr (VDict (dict_set field (VList (xs @ [child])) d))
      | Some _ \<Rightarrow> Inl AttributeError)"
| "append_to v field child = Inl TypeError"

text \<open>The collection after one of its items was mutated in place. Only the items of a
  list are mutable objects; the items drawn from a dictionary or a string are strings.\<close>

fun store_item :: "pyval \<Rightarrow> nat \<Rightarrow> pyval \<Rightarrow> pyval" where
  "store_item (VList xs) i x = VList (xs[i := x])"
| "store_item v i x = v"

fun store_items :: "pyval \<Rightarrow> pyval list \<Rightarrow> pyval" where
  "store_items (VList xs) ys = VList ys"
| "store_items v ys = v"

subsection \<open>Printed lines and exceptions\<close>

text \<open>A computation prints lines and then either raises or returns.\<close>

type_synonym 'a run = "string list \<times> (error + 'a)"

definition and_then :: "'a run \<Rightarrow> ('a \<Rightarrow> 'b run) \<Rightarrow> 'b run" where
  "and_then m f =
     (case m of
        (out, Inl e) \<Rightarrow> (out, Inl e)
      | (out, Inr x) \<Rightarrow> (case f x of (out', r) \<Rightarrow> (out @ out', r)))"

definition lift :: "error + 'a \<Rightarrow> 'a run" where
  "lift r = ([], r)"

fun for_each :: "('s \<Rightarrow> 'a \<Rightarrow> error + 's) \<Rightarrow> 'a list \<Rightarrow> 's \<Rightarrow> error + 's" where
  "for_each body [] s = Inr s"
| "for_each body (x # xs) s =
     (case body s x of Inl e \<Rightarrow> Inl e | Inr s' \<Rightarrow> for_each body xs s')"

subsection \<open>The row mapper: jsonify\<close>

text \<open>
  A cell of a dataframe read from the workbook. A timestamp is carried by the text its
  \<open>isoformat()\<close> gives. Line 61 replaces every NaN by \<open>None\<close>.
\<close>

datatype cell =
    CNaN
  | CTimestamp string
  | CStr string
  | CInt int
  | CFloat rat
  | CBool bool

text \<open>A row as \<open>row.items()\<close> yields it, and a dataframe as \<open>iterrows()\<close> yields it.\<close>

type_synonym row = "(string \<times> cell) list"
type_synonym dataframe = "row list"

text \<open>Lines 61 and 67 to 73: the value stored for a cell of a recognised column.\<close>

definition coerce :: "(string \<Rightarrow> error + pyval) \<Rightarrow> cell \<Rightarrow> error + pyval" where
  "coerce literal_eval column_data =
     (case column_data of
        CNaN \<Rightarrow> Inr VNone
      | CTimestamp stamp \<Rightarrow> Inr (VStr stamp)
      | CStr s \<Rightarrow>
          if CHR ''['' \<in> set s \<and> CHR '']'' \<in> set s then
            (case literal_eval s of
               Inl e \<Rightarrow> Inl e
             | Inr content \<Rightarrow>
                 (case content of VList xs \<Rightarrow> Inr content | _ \<Rightarrow> Inr (VStr s)))
          else Inr (VStr s)
      | CInt i \<Rightarrow> Inr (VInt i)
      | CFloat r \<Rightarrow> Inr (VFloat r)
      | CBool b \<Rightarrow> Inr (VBool b))"

definition no_such_property :: "string \<Rightarrow> string" where
  "no_such_property column_name =
     ''No such property as '' @ [CHR 0x27] @ column_name @ [CHR 0x27] @ '' in the JSON''"

text \<open>Lines 64 to 76: the loop over the columns of one row.\<close>

fun fill :: "(string \<Rightarrow> error + pyval) \<Rightarrow> row \<Rightarrow> dict \<Rightarrow> dict run" where
  "fill literal_eval [] new_part = ([], Inr new_part)"
| "fill literal_eval ((column_name, column_data) # rest) new_part =
     (if column_name \<in> set (keys new_part) then
        (case coerce literal_eval column_data of
           Inl e \<Rightarrow> ([], Inl e)
         | Inr v \<Rightarrow> fill literal_eval rest (dict_set column_name v new_part))
      else
        (case fill literal_eval rest new_part of
           (out, r) \<Rightarrow> (no_such_property column_name # out, r)))"

text \<open>Lines 59 to 78. \<open>deepcopy(json_part)\<close> is the template's value again.\<close>

fun jsonify :: "(string \<Rightarrow> error + pyval) \<Rightarrow> dataframe \<Rightarrow> dict \<Rightarrow> dict list run" where
  "jsonify literal_eval [] json_part = ([], Inr [])"
| "jsonify literal_eval (row # rows) json_part =
     and_then (fill literal_eval row json_part) (\<lambda>new_part.
     and_then (jsonify literal_eval rows json_part) (\<lambda>jsons.
     ([], Inr (new_part # jsons))))"

subsection \<open>The null pruner: clean\_nones\<close>

fun clean_nones :: "pyval \<Rightarrow> pyval" where
  "clean_nones (VList xs) = VList (map clean_nones (filter (\<lambda>x. x \<noteq> VNone) xs))"
| "clean_nones (VDict d) =
     VDict (map (\<lambda>(key, val). (key, clean_nones val))
              (filter (\<lambda>(key, val). val \<noteq> VNone) d))"
| "clean_nones v = v"

subsection \<open>The linker and the pipeline: excel2bsdd\<close>

record excel =
  domain :: dataframe
  classification :: dataframe
  material :: dataframe
  property :: dataframe
  classificationproperty :: dataframe
  classificationrelation :: dataframe
  propertyvalue :: dataframe
  propertyrelation :: dataframe

text \<open>The eight dictionaries imported from \<open>JSON_templates\<close>.\<close>

record templates =
  Domain_template :: dict
  Classification_template :: dict
  Material_template :: dict
  Property_template :: dict
  ClassificationProperty_template :: dict
  ClassificationRelation_template :: dict
  AllowedValue_template :: dict
  PropertyRelation_template :: dict

text \<open>\<open>next(item for item in coll if item["Code"] == related)[field].append(child)\<close>,
  returning the collection as it is afterwards.\<close>

definition attach :: "pyval \<Rightarrow> string \<Rightarrow> pyval \<Rightarrow> pyval \<Rightarrow> error + pyval" where
  "attach coll field related child =
     (case py_iter coll of
        Inl e \<Rightarrow> Inl e
      | Inr items \<Rightarrow>
          (case first_match items related of
             Inl e \<Rightarrow> Inl e
           | Inr i \<Rightarrow>
               (case append_to (items ! i) field child of
                  Inl e \<Rightarrow> Inl e
                | Inr item' \<Rightarrow> Inr (store_item coll i item'))))"

text \<open>Lines 112 to 114, 118 to 120 and 132 to 134: the body of the three loops that
  differ only in the three names.\<close>

definition link :: "string \<Rightarrow> string \<Rightarrow> string \<Rightarrow> dict \<Rightarrow> dict \<Rightarrow> error + dict" where
  "link origin parents field bsdd_data child =
     (case map_of child origin of
        None \<Rightarrow> Inl KeyError
      | Some related \<Rightarrow>
          (case map_of bsdd_data parents of
             None \<Rightarrow> Inl KeyError
           | Some coll \<Rightarrow>
               (case attach coll field related (VDict (dict_pop origin child)) of
                  Inl e \<Rightarrow> Inl e
                | Inr coll' \<Rightarrow> Inr (dict_set parents coll' bsdd_data))))"

text \<open>Lines 127 and 128: the loop over the classifications, each of them searched as
  a collection.\<close>

fun attach_each :: "pyval list \<Rightarrow> string \<Rightarrow> pyval \<Rightarrow> pyval \<Rightarrow> error + pyval list" where
  "attach_each [] field related child = Inr []"
| "attach_each (cls # rest) field related child =
     (case attach cls field related child of
        Inl e \<Rightarrow> Inl e
      | Inr cls' \<Rightarrow>
          (case attach_each rest field related child of
             Inl e \<Rightarrow> Inl e
           | Inr rest' \<Rightarrow> Inr (cls' # rest')))"

text \<open>Lines 124 to 128: the body of the loop over the property values.\<close>

definition link_value :: "dict \<Rightarrow> dict \<Rightarrow> error + dict" where
  "link_value bsdd_data prop_val =
     (case map_of prop_val ''(Origin Property Code OR ClassificationProperty Code)'' of
        None \<Rightarrow> Inl KeyError
      | Some related \<Rightarrow>
          (let child = VDict (dict_pop ''(Origin Property Code OR ClassificationProperty Code)''
                                prop_val)
           in case map_of bsdd_data ''Properties'' of
                None \<Rightarrow> Inl KeyError
              | Some props \<Rightarrow>
                  (case attach props ''AllowedValues'' related child of
                     Inl e \<Rightarrow> Inl e
                   | Inr props' \<Rightarrow>
                       (let bsdd_data = dict_set ''Properties'' props' bsdd_data
                        in case map_of bsdd_data ''Classifications'' of
                             None \<Rightarrow> Inl KeyError
                           | Some clss \<Rightarrow>
                               (case py_iter clss of
                                  Inl e \<Rightarrow> Inl e
                                | Inr cls_items \<Rightarrow>
                                    (case attach_each cls_items ''AllowedValues'' related child of
                                       Inl e \<Rightarrow> Inl e
                                     | Inr cls_items' \<Rightarrow>
                                         Inr (dict_set ''Classifications''
                                                (store_items clss cls_items') bsdd_data)))))))"

text \<open>Line 104: \<open>jsonify(excel['domain'], Domain)[0]\<close>.\<close>

definition index0 :: "'a list \<Rightarrow> error + 'a" where
  "index0 xs = (case xs of [] \<Rightarrow> Inl IndexError | x # _ \<Rightarrow> Inr x)"

text \<open>Lines 103 to 136.\<close>

definition excel2bsdd ::
  "(string \<Rightarrow> error + pyval) \<Rightarrow> templates \<Rightarrow> excel \<Rightarrow> dict run" where
  "excel2bsdd literal_eval T excel =
     and_then (jsonify literal_eval (domain excel) (Domain_template T)) (\<lambda>domains.
     and_then (lift (index0 domains)) (\<lambda>bsdd_data.
     and_then (jsonify literal_eval (classification excel) (Classification_template T))
       (\<lambda>classifications.
     and_then (jsonify literal_eval (material excel) (Material_template T)) (\<lambda>materials.
     and_then (jsonify literal_eval (property excel) (Property_template T)) (\<lambda>properties.
     let bsdd_data = dict_set ''Classifications'' (VList (map VDict classifications)) bsdd_data;
         bsdd_data = dict_set ''Materials'' (VList (map VDict materials)) bsdd_data;
         bsdd_data = dict_set ''Properties'' (VList (map VDict properties)) bsdd_data
     in
     and_then (jsonify literal_eval (classificationproperty excel)
                 (ClassificationProperty_template T)) (\<lambda>cls_props.
     and_then (lift (for_each (link ''(Origin Classification Code)'' ''Classifications''
                                 ''ClassificationProperties'') cls_props bsdd_data))
       (\<lambda>bsdd_data.
     and_then (jsonify literal_eval (classificationrelation excel)
                 (ClassificationRelation_template T)) (\<lambda>cls_rels.
     and_then (lift (for_each (link ''(Origin Classification Code)'' ''Classifications''
                                 ''ClassificationRelations'') cls_rels bsdd_data))
       (\<lambda>bsdd_data.
     and_then (jsonify literal_eval (propertyvalue excel) (AllowedValue_template T))
       (\<lambda>prop_vals.
     and_then (lift (for_each link_value prop_vals bsdd_data)) (\<lambda>bsdd_data.
     and_then (jsonify literal_eval (propertyrelation excel) (PropertyRelation_template T))
       (\<lambda>prop_rels.
     and_then (lift (for_each (link ''(Origin Property)'' ''Properties''
                                 ''PropertyRelations'') prop_rels bsdd_data))
       (\<lambda>bsdd_data.
     ([], Inr bsdd_data))))))))))))))"

subsection \<open>The command line: the main block\<close>

text \<open>\<open>sys.argv[i]\<close>.\<close>

definition argv_at :: "string list \<Rightarrow> nat \<Rightarrow> error + string" where
  "argv_at argv i = (if i < length argv then Inr (argv ! i) else Inl IndexError)"

text \<open>
  Lines 140 to 151. \<open>load_excel\<close> stands for the pandas reader: it gives the dataframes
  stored under a path, or fails. The result is the path opened for writing and the
  document dumped to it. \<open>not WITH_NULLS\<close> holds of the empty string only.
\<close>

definition main ::
  "(string \<Rightarrow> error + excel) \<Rightarrow> (string \<Rightarrow> error + pyval) \<Rightarrow> templates \<Rightarrow> string list
    \<Rightarrow> (string \<times> pyval) run" where
  "main load_excel literal_eval T argv =
     and_then (lift (argv_at argv 0)) (\<lambda>EXCEL_PATH.
     and_then (lift (argv_at argv 1)) (\<lambda>JSON_PATH.
     and_then (lift (argv_at argv 2)) (\<lambda>WITH_NULLS.
     and_then (lift (load_excel EXCEL_PATH)) (\<lambda>excel.
     and_then (excel2bsdd literal_eval T excel) (\<lambda>bsdd_data.
     ([], Inr (JSON_PATH,
               if WITH_NULLS = [] then clean_nones (VDict bsdd_data)
               else VDict bsdd_data)))))))"

subsection \<open>A reference parser for list literals\<close>

text \<open>
  \<open>ast.literal_eval\<close> is a parameter of the model. To run the row mapper on concrete
  cells, this parser stands in for it on one fragment of Python's literals: lists in
  square brackets, nested at will, of unsigned decimal integers (a run of zeros is
  zero; any other leading zero is a syntax error, as in Python), with blanks between the
  tokens and an optional trailing comma. On this fragment it returns what
  \<open>literal_eval\<close> returns. Every other text is reported as unparseable, which is what
  \<open>literal_eval\<close> does for a text that is no Python literal, and differs from it for a
  literal outside the fragment (a float, a quoted string, a tuple); the examples below
  use it on lists of the fragment and on texts that are no literal.
\<close>

datatype token = LBRACK | RBRACK | COMMA | NUM nat

definition flush :: "nat option \<Rightarrow> token list" where
  "flush cur = (case cur of None \<Rightarrow> [] | Some n \<Rightarrow> [NUM n])"

definition punct :: "char \<Rightarrow> token list option" where
  "punct c =
     (if c = CHR ''['' then Some [LBRACK]
      else if c = CHR '']'' then Some [RBRACK]
      else if c = CHR '','' then Some [COMMA]
      else if c = CHR '' '' then Some []
      else None)"

fun tokenize :: "string \<Rightarrow> nat option \<Rightarrow> token list option" where
  "tokenize [] cur = Some (flush cur)"
| "tokenize (c # cs) cur =
     (if c \<in> set ''0123456789'' then
        (case cur of
           None \<Rightarrow> tokenize cs (Some (of_char c - 48))
         | Some n \<Rightarrow>
             if n = 0 then (if c = CHR ''0'' then tokenize cs (Some 0) else None)
             else tokenize cs (Some (10 * n + (of_char c - 48))))
      else
        (case punct c of
           None \<Rightarrow> None
         | Some t \<Rightarrow>
             (case tokenize cs None of
                None \<Rightarrow> None
              | Some ts \<Rightarrow> Some (flush cur @ t @ ts))))"

datatype expect = AfterOpen | AfterValue | AfterComma

fun starts_value :: "token \<Rightarrow> bool" where
  "starts_value LBRACK = True"
| "starts_value (NUM n) = True"
| "starts_value t = False"

text \<open>The stack holds, innermost first, the elements read so far of every list that
  is still open, last element first.\<close>

fun parse :: "token list \<Rightarrow> pyval list list \<Rightarrow> expect \<Rightarrow> pyval option \<Rightarrow> pyval option" where
  "parse [] stack st done = (if stack = [] then done else None)"
| "parse (t # ts) stack st done =
     (if done \<noteq> None \<or> (st = AfterValue \<and> starts_value t) then None
      else
        (case t of
           LBRACK \<Rightarrow> parse ts ([] # stack) AfterOpen None
         | NUM n \<Rightarrow>
             (case stack of
                [] \<Rightarrow> parse ts [] AfterValue (Some (VInt (int n)))
              | frame # below \<Rightarrow> parse ts ((VInt (int n) # frame) # below) AfterValue None)
         | COMMA \<Rightarrow>
             (if stack \<noteq> [] \<and> st = AfterValue then parse ts stack AfterComma None else None)
         | RBRACK \<Rightarrow>
             (case stack of
                [] \<Rightarrow> None
              | [frame] \<Rightarrow> parse ts [] AfterValue (Some (VList (rev frame)))
              | frame # outer # below \<Rightarrow>
                  parse ts ((VList (rev frame) # outer) # below) AfterValue None)))"

definition literal_eval_lists :: "string \<Rightarrow> error + pyval" where
  "literal_eval_lists s =
     (case tokenize s None of
        None \<Rightarrow> Inl LiteralError
      | Some ts \<Rightarrow>
          (case parse ts [] AfterOpen None of None \<Rightarrow> Inl LiteralError | Some v \<Rightarrow> Inr v))"

subsection \<open>Templates for the worked examples\<close>

text \<open>
  Modelled from the spec: the module \<open>JSON_templates\<close> is not among the sources. These
  templates carry the fields that section 3 of the specification names for each entity
  (the code of a parent, its child lists, the origin field of a child) and one field of
  content each. They serve the worked examples only; every general statement below is
  about arbitrary templates.
\<close>

definition spec_templates :: templates where
  "spec_templates =
     \<lparr> Domain_template = [(''DomainName'', VNone)],
       Classification_template =
         [(''Code'', VNone), (''Name'', VNone), (''ClassificationProperties'', VList []),
          (''ClassificationRelations'', VList []), (''AllowedValues'', VList [])],
       Material_template = [(''Code'', VNone), (''Name'', VNone)],
       Property_template =
         [(''Code'', VNone), (''Name'', VNone), (''AllowedValues'', VList []),
          (''PropertyRelations'', VList [])],
       ClassificationProperty_template =
         [(''(Origin Classification Code)'', VNone), (''PropertyCode'', VNone)],
       ClassificationRelation_template =
         [(''(Origin Classification Code)'', VNone), (''RelatedClassificationName'', VNone)],
       AllowedValue_template =
         [(''(Origin Property Code OR ClassificationProperty Code)'', VNone), (''Value'', VNone)],
       PropertyRelation_template =
         [(''(Origin Property)'', VNone), (''RelatedPropertyName'', VNone)] \<rparr>"

definition empty_excel :: excel where
  "empty_excel =
     \<lparr> domain = [], classification = [], material = [], property = [],
       classificationproperty = [], classificationrelation = [], propertyvalue = [],
       propertyrelation = [] \<rparr>"

text \<open>Workbooks for the worked examples: a domain sheet of one row, and rows of the
  other sheets as each example needs them.\<close>

definition example_domain :: dataframe where
  "example_domain = [[(''DomainName'', CStr ''Demo'')]]"

definition example_A1 :: excel where
  "example_A1 =
     empty_excel
       \<lparr> domain := example_domain,
         classification := [[(''Code'', CStr ''A1''), (''Name'', CStr ''Wall'')]],
         classificationproperty :=
           [[(''(Origin Classification Code)'', CStr ''A1''), (''PropertyCode'', CStr ''height'')],
            [(''(Origin Classification Code)'', CStr ''A1''), (''PropertyCode'', CStr ''width'')]] \<rparr>"

definition example_duplicate :: excel where
  "example_duplicate =
     empty_excel
       \<lparr> domain := example_domain,
         classification := [[(''Code'', CStr ''A1''), (''Name'', CStr ''Wall'')],
                            [(''Code'', CStr ''A1''), (''Name'', CStr ''Slab'')]],
         classificationproperty :=
           [[(''(Origin Classification Code)'', CStr ''A1''), (''PropertyCode'', CStr ''height'')]] \<rparr>"

definition example_unmatched :: excel where
  "example_unmatched =
     empty_excel
       \<lparr> domain := example_domain,
         classification := [[(''Code'', CStr ''A1''), (''Name'', CStr ''Wall'')]],
         classificationproperty :=
           [[(''(Origin Classification Code)'', CStr ''B7''), (''PropertyCode'', CStr ''height'')]] \<rparr>"

definition example_value :: excel where
  "example_value =
     empty_excel
       \<lparr> domain := example_domain,
         classification := [[(''Code'', CStr ''A1''), (''Name'', CStr ''Wall'')]],
         property := [[(''Code'', CStr ''P1''), (''Name'', CStr ''Colour'')]],
         propertyvalue :=
           [[(''(Origin Property Code OR ClassificationProperty Code)'', CStr ''P1''),
             (''Value'', CStr ''red'')]] \<rparr>"

definition example_two_domains :: excel where
  "example_two_domains =
     empty_excel
       \<lparr> domain := [[(''DomainName'', CStr ''first'')], [(''DomainName'', CStr ''second'')]] \<rparr>"

definition example_relations :: excel where
  "example_relations =
     empty_excel
       \<lparr> domain := example_domain,
         classification := [[(''Code'', CStr ''A1''), (''Name'', CStr ''Wall'')],
                            [(''Code'', CStr ''B2''), (''Name'', CStr ''Slab'')]],
         property := [[(''Code'', CStr ''P1''), (''Name'', CStr ''Colour'')],
                      [(''Code'', CStr ''P2''), (''Name'', CStr ''Height'')]],
         classificationproperty :=
           [[(''(Origin Classification Code)'', CStr ''B2''), (''PropertyCode'', CStr ''P2'')],
            [(''(Origin Classification Code)'', CStr ''A1''), (''PropertyCode'', CStr ''P1'')],
            [(''(Origin Classification Code)'', CStr ''B2''), (''PropertyCode'', CStr ''P1'')]],
         classificationrelation :=
           [[(''(Origin Classification Code)'', CStr ''B2''),
             (''RelatedClassificationName'', CStr ''Floor'')]],
         propertyrelation :=
           [[(''(Origin Property)'', CStr ''P2''), (''RelatedPropertyName'', CStr ''Depth'')],
            [(''(Origin Property)'', CStr ''P1''), (''RelatedPropertyName'', CStr ''Paint'')]] \<rparr>"

text \<open>The document the pipeline returns for \<open>example_relations\<close>.\<close>

definition example_relations_tree :: dict where
  "example_relations_tree =
     [(''DomainName'', VStr ''Demo''),
      (''Classifications'',
       VList [VDict [(''Code'', VStr ''A1''), (''Name'', VStr ''Wall''),
                     (''ClassificationProperties'', VList [VDict [(''PropertyCode'', VStr ''P1'')]]),
                     (''ClassificationRelations'', VList []),
                     (''AllowedValues'', VList [])],
              VDict [(''Code'', VStr ''B2''), (''Name'', VStr ''Slab''),
                     (''ClassificationProperties'',
                      VList [VDict [(''PropertyCode'', VStr ''P2'')],
                             VDict [(''PropertyCode'', VStr ''P1'')]]),
                     (''ClassificationRelations'',
                      VList [VDict [(''RelatedClassificationName'', VStr ''Floor'')]]),
                     (''AllowedValues'', VList [])]]),
      (''Materials'', VList []),
      (''Properties'',
       VList [VDict [(''Code'', VStr ''P1''), (''Name'', VStr ''Colour''),
                     (''AllowedValues'', VList []),
                     (''PropertyRelations'',
                      VList [VDict [(''RelatedPropertyName'', VStr ''Paint'')]])],
              VDict [(''Code'', VStr ''P2''), (''Name'', VStr ''Height''),
                     (''AllowedValues'', VList []),
                     (''PropertyRelations'',
                      VList [VDict [(''RelatedPropertyName'', VStr ''Depth'')]])]])]"

definition example_second_domain_fails :: excel where
  "example_second_domain_fails =
     empty_excel
       \<lparr> domain := [[(''DomainName'', CStr ''first'')], [(''DomainName'', CStr ''Length [mm]'')]] \<rparr>"

text \<open>A file system that holds one workbook, under the name \<open>in.xlsx\<close>.\<close>

definition example_loader :: "string \<Rightarrow> error + excel" where
  "example_loader path = (if path = ''in.xlsx'' then Inr example_A1 else Inl IOError)"

subsection \<open>Vocabulary of the statements about the row mapper\<close>

text \<open>The specification's reading of a list cell: the text, stripped of the blanks around
  it, starts with \<open>[\<close> and ends with \<open>]\<close>.\<close>

definition strip :: "string \<Rightarrow> string" where
  "strip s = rev (dropWhile (\<lambda>c. c = CHR '' '') (rev (dropWhile (\<lambda>c. c = CHR '' '') s)))"

definition enclosed :: "string \<Rightarrow> bool" where
  "enclosed s =
     (case strip s of [] \<Rightarrow> False | c # cs \<Rightarrow> c = CHR ''['' \<and> cs \<noteq> [] \<and> last cs = CHR '']'')"

text \<open>The lines \<open>jsonify\<close> prints for one row: one for each column that is no key of
  the template.\<close>

definition diagnostics :: "dict \<Rightarrow> row \<Rightarrow> string list" where
  "diagnostics json_part row =
     map no_such_property (filter (\<lambda>column_name. column_name \<notin> set (keys json_part)) (map fst row))"

text \<open>The row without the columns that the template does not know.\<close>

definition recognised :: "dict \<Rightarrow> row \<Rightarrow> row" where
  "recognised json_part row = filter (\<lambda>(column_name, column_data). column_name \<in> set (keys json_part)) row"

subsection \<open>Vocabulary of the statements about the linker\<close>

text \<open>The list a parent holds under a field (empty when it holds none).\<close>

definition child_list :: "string \<Rightarrow> pyval \<Rightarrow> pyval list" where
  "child_list field item = (case getitem item field of Inr (VList xs) \<Rightarrow> xs | _ \<Rightarrow> [])"

text \<open>The child names, in its origin field, a value that the generator of the linker
  finds first at position \<open>i\<close> of the parents.\<close>

definition linked_to :: "string \<Rightarrow> pyval list \<Rightarrow> nat \<Rightarrow> dict \<Rightarrow> bool" where
  "linked_to origin ps i child =
     (case map_of child origin of None \<Rightarrow> False | Some related \<Rightarrow> first_match ps related = Inr i)"

text \<open>The parent has a code, and it equals the value.\<close>

definition code_is :: "pyval \<Rightarrow> pyval \<Rightarrow> bool" where
  "code_is related item = (case getitem item ''Code'' of Inl e \<Rightarrow> False | Inr code \<Rightarrow> py_eq code related)"

text \<open>The child can be linked: it has the origin field, the generator finds a parent
  for its value, and that parent holds a list under the field.\<close>

definition linkable :: "string \<Rightarrow> string \<Rightarrow> pyval list \<Rightarrow> dict \<Rightarrow> bool" where
  "linkable origin field ps child =
     (case map_of child origin of
        None \<Rightarrow> False
      | Some related \<Rightarrow>
          (case first_match ps related of
             Inl e \<Rightarrow> False
           | Inr i \<Rightarrow> (case getitem (ps ! i) field of Inr (VList xs) \<Rightarrow> True | _ \<Rightarrow> False)))"

text \<open>The children of a loop that end up under the parent at position \<open>i\<close>, as they
  are stored: in the order of their rows, without their origin field.\<close>

definition linked_children :: "string \<Rightarrow> dict list \<Rightarrow> nat \<Rightarrow> dict list \<Rightarrow> pyval list" where
  "linked_children origin parents i children =
     map (\<lambda>child. VDict (dict_pop origin child))
       (filter (linked_to origin (map VDict parents) i) children)"

text \<open>The output tree after lines 104 to 108.\<close>

definition top_level :: "dict \<Rightarrow> dict list \<Rightarrow> dict list \<Rightarrow> dict list \<Rightarrow> dict" where
  "top_level bsdd_data classifications materials properties =
     dict_set ''Properties'' (VList (map VDict properties))
       (dict_set ''Materials'' (VList (map VDict materials))
          (dict_set ''Classifications'' (VList (map VDict classifications)) bsdd_data))"

subsection \<open>Vocabulary of the statements about pruning\<close>

text \<open>No list of the tree holds \<open>None\<close> and no key of the tree is bound to \<open>None\<close>.\<close>

fun no_nones :: "pyval \<Rightarrow> bool" where
  "no_nones (VList xs) = list_all (\<lambda>x. x \<noteq> VNone \<and> no_nones x) xs"
| "no_nones (VDict d) = list_all (\<lambda>(key, val). val \<noteq> VNone \<and> no_nones val) d"
| "no_nones v = True"


text \<open>The scalars of the tree, in document order.\<close>

fun leaves :: "pyval \<Rightarrow> pyval list" where
  "leaves (VList xs) = concat (map leaves xs)"
| "leaves (VDict d) = concat (map (\<lambda>(key, val). leaves val) d)"
| "leaves v = [v]"

section \<open>The row mapper on a store\<close>

text \<open>
  The functions above carry Python's objects as values, which cannot tell a copy from
  the object it was copied from. To state what \<open>jsonify\<close> does to the template it is
  given, the row mapper is written once more over a store: a list or dictionary lives at
  an address, and a value is an immutable scalar or a reference to an address. The store
  is a list of objects, and the address of an object is its index.
\<close>

datatype ref_val = RNone | RBool bool | RInt int | RFloat rat | RStr string | Ref nat

datatype obj = OList "ref_val list" | ODict "(string \<times> ref_val) list"

type_synonym heap = "obj list"


text \<open>The values an object holds.\<close>

fun refs :: "obj \<Rightarrow> ref_val list" where
  "refs (OList xs) = xs"
| "refs (ODict d) = map snd d"







subsection \<open>Vocabulary of the statements about the store\<close>




text \<open>The addresses that can be reached from a value: all that shares mutable structure
  with it.\<close>

inductive_set reach :: "heap \<Rightarrow> ref_val \<Rightarrow> nat set" for h :: heap and v :: ref_val where
  root: "v = Ref a \<Longrightarrow> a \<in> reach h v"
| step: "b \<in> reach h v \<Longrightarrow> b < length h \<Longrightarrow> Ref c \<in> set (refs (h ! b)) \<Longrightarrow> c \<in> reach h v"




section \<open>The row mapper\<close>

lemma keys_dict_set: "k \<in> fst ` set d \<Longrightarrow> map fst (dict_set k v d) = map fst d"
  by (induction d) force+

lemma keys_dict_set_keys: "k \<in> set (keys d) \<Longrightarrow> keys (dict_set k v d) = keys d"
  by (simp add: keys_def keys_dict_set)

lemma map_of_dict_set: "map_of (dict_set k v d) = (map_of d)(k \<mapsto> v)"
  by (induction d) (auto simp: fun_eq_iff)

lemma fill_keys: "fill lit row p = (out, Inr res) \<Longrightarrow> keys res = keys p"
proof (induction lit row p arbitrary: out rule: fill.induct)
  case (1 lit p)
  then show ?case by simp
next
  case (2 lit c x rest p)
  show ?case
  proof (cases "c \<in> set (keys p)")
    case True
    then obtain v where v: "coerce lit x = Inr v"
      and f: "fill lit rest (dict_set c v p) = (out, Inr res)"
      using 2(3) by (auto split: sum.splits)
    from 2(1) [OF True v f] True show ?thesis by (simp add: keys_dict_set_keys)
  next
    case False
    then obtain out' where "fill lit rest p = (out', Inr res)"
      using 2(3) by (auto split: prod.splits)
    from 2(2) [OF False this] show ?thesis .
  qed
qed

lemma fill_out:
  "fill lit row p = (out, Inr res) \<Longrightarrow> out = diagnostics p row"
proof (induction lit row p arbitrary: out rule: fill.induct)
  case (1 lit p)
  then show ?case by (simp add: diagnostics_def)
next
  case (2 lit c x rest p)
  show ?case
  proof (cases "c \<in> set (keys p)")
    case True
    then obtain v where v: "coerce lit x = Inr v"
      and f: "fill lit rest (dict_set c v p) = (out, Inr res)"
      using 2(3) by (auto split: sum.splits)
    from 2(1) [OF True v f] True show ?thesis
      by (simp add: diagnostics_def keys_dict_set_keys)
  next
    case False
    then obtain out' where f: "fill lit rest p = (out', Inr res)" and o: "out = no_such_property c # out'"
      using 2(3) by (auto split: prod.splits)
    from 2(2) [OF False f] o False show ?thesis by (simp add: diagnostics_def)
  qed
qed

lemma fill_recognised:
  "snd (fill lit (recognised p row) p) = snd (fill lit row p)"
proof (induction lit row p rule: fill.induct)
  case (1 lit p)
  then show ?case by (simp add: recognised_def)
next
  case (2 lit c x rest p)
  show ?case
  proof (cases "c \<in> set (keys p)")
    case True
    show ?thesis
    proof (cases "coerce lit x")
      case (Inl e)
      then show ?thesis using True by (simp add: recognised_def)
    next
      case (Inr v)
      have "recognised (dict_set c v p) rest = recognised p rest"
        using True by (simp add: recognised_def keys_dict_set_keys)
      with 2(1) [OF True Inr] Inr True show ?thesis
        by (simp add: recognised_def)
    qed
  next
    case False
    with 2(2) [OF False] show ?thesis
      by (simp add: recognised_def split: prod.splits)
  qed
qed

lemma snd_and_then:
  "snd (and_then m f) = (case snd m of Inl e \<Rightarrow> Inl e | Inr x \<Rightarrow> snd (f x))"
  by (auto simp: and_then_def split: prod.splits sum.splits)

lemma fst_and_then:
  "fst (and_then m f) = (case snd m of Inl e \<Rightarrow> fst m | Inr x \<Rightarrow> fst m @ fst (f x))"
  by (auto simp: and_then_def split: prod.splits sum.splits)

lemma and_then_Inr:
  "and_then m f = (out, Inr y) \<longleftrightarrow>
     (\<exists>o1 x o2. m = (o1, Inr x) \<and> f x = (o2, Inr y) \<and> out = o1 @ o2)"
  by (auto simp: and_then_def split: prod.splits sum.splits)

lemma jsonify_Cons_Inr:
  "jsonify lit (row # rows) p = (out, Inr js) \<longleftrightarrow>
     (\<exists>o1 x o2 xs. fill lit row p = (o1, Inr x) \<and> jsonify lit rows p = (o2, Inr xs)
        \<and> js = x # xs \<and> out = o1 @ o2)"
  by (auto simp: and_then_Inr)

lemma jsonify_keys:
  "jsonify lit df p = (out, Inr js) \<Longrightarrow> obj \<in> set js \<Longrightarrow> keys obj = keys p"
proof (induction df arbitrary: out js)
  case Nil
  then show ?case by simp
next
  case (Cons row rows)
  from Cons.prems(1) obtain o1 x o2 xs where
    f: "fill lit row p = (o1, Inr x)" and j: "jsonify lit rows p = (o2, Inr xs)"
    and js: "js = x # xs"
    unfolding jsonify_Cons_Inr by blast
  show ?case using Cons.IH [OF j] fill_keys [OF f] Cons.prems(2) js by auto
qed

lemma jsonify_length:
  "jsonify lit df p = (out, Inr js) \<Longrightarrow> length js = length df"
proof (induction df arbitrary: out js)
  case Nil
  then show ?case by simp
next
  case (Cons row rows)
  from Cons.prems(1) obtain o1 x o2 xs where
    j: "jsonify lit rows p = (o2, Inr xs)" and js: "js = x # xs"
    unfolding jsonify_Cons_Inr by blast
  show ?case using Cons.IH [OF j] js by simp
qed

lemma jsonify_out:
  "jsonify lit df p = (out, Inr js) \<Longrightarrow> out = concat (map (diagnostics p) df)"
proof (induction df arbitrary: out js)
  case Nil
  then show ?case by simp
next
  case (Cons row rows)
  from Cons.prems(1) obtain o1 x o2 xs where
    f: "fill lit row p = (o1, Inr x)" and j: "jsonify lit rows p = (o2, Inr xs)"
    and o: "out = o1 @ o2"
    unfolding jsonify_Cons_Inr by blast
  show ?case using Cons.IH [OF j] fill_out [OF f] o by simp
qed

lemma jsonify_recognised:
  "snd (jsonify lit (map (recognised p) df) p) = snd (jsonify lit df p)"
proof (induction df)
  case Nil
  then show ?case by simp
next
  case (Cons row rows)
  show ?case
    using Cons.IH fill_recognised [of lit p row]
    by (simp add: snd_and_then split: sum.splits)
qed

lemma enclosed_brackets: "enclosed s \<Longrightarrow> CHR ''['' \<in> set s \<and> CHR '']'' \<in> set s"
proof -
  assume e: "enclosed s"
  then obtain cs where st: "strip s = CHR ''['' # cs" and cs: "cs \<noteq> []" "last cs = CHR '']''"
    by (auto simp: enclosed_def split: list.splits)
  have sub: "set (strip s) \<subseteq> set s"
    unfolding strip_def by (auto dest!: set_dropWhileD)
  have "CHR ''['' \<in> set (strip s)" using st by simp
  moreover have "CHR '']'' \<in> set (strip s)" using st cs by (metis last_in_set list.set_intros(2))
  ultimately show ?thesis using sub by blast
qed

lemma coerce_fails:
  "coerce lit x = Inl e \<longleftrightarrow> (\<exists>s. x = CStr s \<and> CHR ''['' \<in> set s \<and> CHR '']'' \<in> set s \<and> lit s = Inl e)"
  by (auto simp: coerce_def split: cell.splits sum.splits pyval.splits if_splits)

lemma fill_fails:
  "(c, x) \<in> set row \<Longrightarrow> c \<in> set (keys p) \<Longrightarrow> coerce lit x = Inl e
    \<Longrightarrow> \<exists>e'. snd (fill lit row p) = Inl e'"
proof (induction lit row p rule: fill.induct)
  case (1 lit p)
  then show ?case by simp
next
  case (2 lit c' x' rest p)
  show ?case
  proof (cases "c' \<in> set (keys p)")
    case True
    show ?thesis
    proof (cases "coerce lit x'")
      case (Inl e')
      then show ?thesis using True by simp
    next
      case (Inr v)
      have ne: "(c, x) \<noteq> (c', x')" using Inr 2(5) by auto
      then have "(c, x) \<in> set rest" using 2(3) by auto
      moreover have "c \<in> set (keys (dict_set c' v p))"
        using True 2(4) by (simp add: keys_dict_set_keys)
      ultimately show ?thesis using 2(1) [OF True Inr] 2(5) True Inr by simp
    qed
  next
    case False
    then have "(c, x) \<in> set rest" using 2(3,4) by auto
    from 2(2) [OF False this 2(4,5)] False show ?thesis
      by (auto split: prod.splits)
  qed
qed

lemma fill_fails_only:
  "snd (fill lit row p) = Inl e
    \<Longrightarrow> \<exists>c x. (c, x) \<in> set row \<and> c \<in> set (keys p) \<and> coerce lit x = Inl e"
proof (induction lit row p rule: fill.induct)
  case (1 lit p)
  then show ?case by simp
next
  case (2 lit c' x' rest p)
  show ?case
  proof (cases "c' \<in> set (keys p)")
    case True
    show ?thesis
    proof (cases "coerce lit x'")
      case (Inl e')
      then show ?thesis using True 2(3) by auto
    next
      case (Inr v)
      then have "snd (fill lit rest (dict_set c' v p)) = Inl e" using 2(3) True by simp
      from 2(1) [OF True Inr this] True show ?thesis
        by (auto simp: keys_dict_set_keys)
    qed
  next
    case False
    then have "snd (fill lit rest p) = Inl e" using 2(3) by (simp split: prod.splits)
    from 2(2) [OF False this] show ?thesis by auto
  qed
qed

lemma fill_untouched:
  "fill lit row p = (out, Inr res) \<Longrightarrow> k \<notin> fst ` set row \<Longrightarrow> map_of res k = map_of p k"
proof (induction lit row p arbitrary: out rule: fill.induct)
  case (1 lit p)
  then show ?case by simp
next
  case (2 lit c' x' rest p)
  have k: "k \<noteq> c'" "k \<notin> fst ` set rest" using 2(4) by auto
  show ?case
  proof (cases "c' \<in> set (keys p)")
    case True
    then obtain v where v: "coerce lit x' = Inr v"
      and f: "fill lit rest (dict_set c' v p) = (out, Inr res)"
      using 2(3) by (auto split: sum.splits)
    from 2(1) [OF True v f k(2)] k(1) show ?thesis by (simp add: map_of_dict_set)
  next
    case False
    then obtain out' where f: "fill lit rest p = (out', Inr res)"
      using 2(3) by (auto split: prod.splits)
    from 2(2) [OF False f k(2)] show ?thesis .
  qed
qed

lemma fill_value:
  "fill lit row p = (out, Inr res) \<Longrightarrow> distinct (map fst row) \<Longrightarrow> (c, x) \<in> set row
    \<Longrightarrow> c \<in> set (keys p) \<Longrightarrow> \<exists>v. coerce lit x = Inr v \<and> map_of res c = Some v"
proof (induction lit row p arbitrary: out rule: fill.induct)
  case (1 lit p)
  then show ?case by simp
next
  case (2 lit c' x' rest p)
  have d: "distinct (map fst rest)" "c' \<notin> fst ` set rest" using 2(4) by auto
  show ?case
  proof (cases "c' \<in> set (keys p)")
    case True
    then obtain v where v: "coerce lit x' = Inr v"
      and f: "fill lit rest (dict_set c' v p) = (out, Inr res)"
      using 2(3) by (auto split: sum.splits)
    show ?thesis
    proof (cases "(c, x) = (c', x')")
      case True
      then show ?thesis using fill_untouched [OF f d(2)] v by (simp add: map_of_dict_set)
    next
      case False
      then have "(c, x) \<in> set rest" using 2(5) by auto
      moreover have "c \<in> set (keys (dict_set c' v p))"
        using True 2(6) by (simp add: keys_dict_set_keys)
      ultimately show ?thesis using 2(1) [OF True v f d(1)] by simp
    qed
  next
    case False
    then obtain out' where f: "fill lit rest p = (out', Inr res)"
      using 2(3) by (auto split: prod.splits)
    have "(c, x) \<in> set rest" using False 2(5,6) by auto
    from 2(2) [OF False f d(1) this 2(6)] show ?thesis .
  qed
qed

lemma jsonify_nth:
  "jsonify lit df p = (out, Inr js) \<Longrightarrow> i < length df
    \<Longrightarrow> fill lit (df ! i) p = (diagnostics p (df ! i), Inr (js ! i))"
proof (induction df arbitrary: out js i)
  case Nil
  then show ?case by simp
next
  case (Cons row rows)
  from Cons.prems(1) obtain o1 x o2 xs where
    f: "fill lit row p = (o1, Inr x)" and j: "jsonify lit rows p = (o2, Inr xs)"
    and js: "js = x # xs"
    unfolding jsonify_Cons_Inr by blast
  show ?case
  proof (cases i)
    case 0
    then show ?thesis using f fill_out [OF f] js by simp
  next
    case (Suc n)
    then show ?thesis using Cons.IH [OF j, of n] Cons.prems(2) js by simp
  qed
qed

lemma jsonify_fails:
  "row \<in> set df \<Longrightarrow> (c, x) \<in> set row \<Longrightarrow> c \<in> set (keys p) \<Longrightarrow> coerce lit x = Inl e
    \<Longrightarrow> \<exists>e'. snd (jsonify lit df p) = Inl e'"
proof (induction df)
  case Nil
  then show ?case by simp
next
  case (Cons r rows)
  show ?case
  proof (cases "snd (fill lit r p)")
    case (Inl e')
    then show ?thesis by (simp add: snd_and_then)
  next
    case (Inr v)
    then have "row \<noteq> r" using fill_fails [OF Cons.prems(2,3,4)] by auto
    then have "row \<in> set rows" using Cons.prems(1) by simp
    from Cons.IH [OF this Cons.prems(2,3,4)] Inr show ?thesis
      by (auto simp: snd_and_then split: sum.splits)
  qed
qed

lemma jsonify_fails_only:
  "snd (jsonify lit df p) = Inl e
    \<Longrightarrow> \<exists>row c x. row \<in> set df \<and> (c, x) \<in> set row \<and> c \<in> set (keys p) \<and> coerce lit x = Inl e"
proof (induction df)
  case Nil
  then show ?case by simp
next
  case (Cons r rows)
  show ?case
  proof (cases "snd (fill lit r p)")
    case (Inl e')
    then have "e' = e" using Cons.prems by (simp add: snd_and_then)
    with Inl fill_fails_only [of lit r p e] show ?thesis by auto
  next
    case (Inr v)
    then have "snd (jsonify lit rows p) = Inl e"
      using Cons.prems by (simp add: snd_and_then split: sum.splits)
    from Cons.IH [OF this] show ?thesis by auto
  qed
qed

text \<open>The definitions that evaluate a run of the row mapper on concrete cells.\<close>

lemmas run_simps = and_then_def lift_def coerce_def literal_eval_lists_def flush_def punct_def
  keys_def no_such_property_def diagnostics_def recognised_def

text \<open>
  Claim C4, as the code has it. For every string cell of a column the template knows:
  the text is given to \<open>literal_eval\<close> exactly when it contains both \<open>[\<close> and \<open>]\<close>,
  wherever they stand; the object of the row then holds the parsed value if that is a
  list and the text itself if it is anything else; a text lacking either bracket is
  stored unchanged. A text with both brackets that \<open>literal_eval\<close> rejects makes the
  mapping fail, and the mapping fails for no other reason. Every text that is enclosed
  in brackets once stripped has both brackets, so it is among the parsed ones; and
  \<open>"[1,2,3]"\<close> maps to the list of the three numbers.
\<close>

theorem list_cells_parsed:
  "(c \<in> set (keys json_part) \<and> i < length df \<and> (c, CStr s) \<in> set (df ! i)
      \<and> distinct (map fst (df ! i)) \<and> snd (jsonify literal_eval df json_part) = Inr jsons
    \<longrightarrow> map_of (jsons ! i) c =
          Some (if CHR ''['' \<in> set s \<and> CHR '']'' \<in> set s
                then (case literal_eval s of Inr (VList xs) \<Rightarrow> VList xs | _ \<Rightarrow> VStr s)
                else VStr s))
   \<and> (c \<in> set (keys json_part) \<and> row \<in> set df \<and> (c, CStr s) \<in> set row
        \<and> CHR ''['' \<in> set s \<and> CHR '']'' \<in> set s \<and> literal_eval s = Inl e
      \<longrightarrow> (\<exists>e'. snd (jsonify literal_eval df json_part) = Inl e'))
   \<and> (snd (jsonify literal_eval df json_part) = Inl e
      \<longrightarrow> (\<exists>row c s. row \<in> set df \<and> (c, CStr s) \<in> set row \<and> c \<in> set (keys json_part)
             \<and> CHR ''['' \<in> set s \<and> CHR '']'' \<in> set s \<and> literal_eval s = Inl e))
   \<and> (enclosed s \<longrightarrow> CHR ''['' \<in> set s \<and> CHR '']'' \<in> set s)
   \<and> jsonify literal_eval_lists [[(''Value'', CStr ''[1,2,3]'')]] [(''Value'', VNone)]
       = ([], Inr [[(''Value'', VList [VInt 1, VInt 2, VInt 3])]])"
proof (intro conjI impI)
  assume a: "c \<in> set (keys json_part) \<and> i < length df \<and> (c, CStr s) \<in> set (df ! i)
      \<and> distinct (map fst (df ! i)) \<and> snd (jsonify literal_eval df json_part) = Inr jsons"
  then obtain out where j: "jsonify literal_eval df json_part = (out, Inr jsons)"
    by (cases "jsonify literal_eval df json_part") auto
  from a jsonify_nth [OF j, of i]
  have f: "fill literal_eval (df ! i) json_part = (diagnostics json_part (df ! i), Inr (jsons ! i))"
    by simp
  from fill_value [OF f] a obtain v where
    v: "coerce literal_eval (CStr s) = Inr v" "map_of (jsons ! i) c = Some v"
    by blast
  from v(1) have "v = (if CHR ''['' \<in> set s \<and> CHR '']'' \<in> set s
                then (case literal_eval s of Inr (VList xs) \<Rightarrow> VList xs | _ \<Rightarrow> VStr s)
                else VStr s)"
    by (auto simp: coerce_def split: if_splits sum.splits pyval.splits)
  with v(2) show "map_of (jsons ! i) c =
          Some (if CHR ''['' \<in> set s \<and> CHR '']'' \<in> set s
                then (case literal_eval s of Inr (VList xs) \<Rightarrow> VList xs | _ \<Rightarrow> VStr s)
                else VStr s)"
    by simp
next
  assume a: "c \<in> set (keys json_part) \<and> row \<in> set df \<and> (c, CStr s) \<in> set row
        \<and> CHR ''['' \<in> set s \<and> CHR '']'' \<in> set s \<and> literal_eval s = Inl e"
  then have "coerce literal_eval (CStr s) = Inl e" by (simp add: coerce_fails)
  with a show "\<exists>e'. snd (jsonify literal_eval df json_part) = Inl e'"
    using jsonify_fails [of row df c "CStr s" json_part literal_eval e] by blast
next
  assume "snd (jsonify literal_eval df json_part) = Inl e"
  from jsonify_fails_only [OF this]
  show "\<exists>row c s. row \<in> set df \<and> (c, CStr s) \<in> set row \<and> c \<in> set (keys json_part)
             \<and> CHR ''['' \<in> set s \<and> CHR '']'' \<in> set s \<and> literal_eval s = Inl e"
    unfolding coerce_fails by blast
next
  assume "enclosed s"
  then show "CHR ''['' \<in> set s" by (simp add: enclosed_brackets)
next
  assume "enclosed s"
  then show "CHR '']'' \<in> set s" by (simp add: enclosed_brackets)
next
  show "jsonify literal_eval_lists [[(''Value'', CStr ''[1,2,3]'')]] [(''Value'', VNone)]
       = ([], Inr [[(''Value'', VList [VInt 1, VInt 2, VInt 3])]])"
    by (simp add: run_simps)
qed

theorem list_cells_parsed_witness:
  "''Value'' \<in> set (keys [(''Value'', VNone)])
   \<and> snd (jsonify literal_eval_lists [[(''Value'', CStr '' [1, [2]] '')]] [(''Value'', VNone)])
       = Inr [[(''Value'', VList [VInt 1, VList [VInt 2]])]]
   \<and> enclosed '' [1, [2]] ''
   \<and> literal_eval_lists ''Length [mm]'' = Inl LiteralError
   \<and> snd (jsonify literal_eval_lists [[(''Value'', CStr ''Length [mm]'')]] [(''Value'', VNone)])
       = Inl LiteralError"
  using list_cells_parsed [of "''Value''" "[(''Value'', VNone)]" 0
      "[[(''Value'', CStr '' [1, [2]] '')]]" "'' [1, [2]] ''" literal_eval_lists
      "[[(''Value'', VList [VInt 1, VList [VInt 2]])]]" "[(''Value'', CStr '' [1, [2]] '')]" LiteralError]
    list_cells_parsed [of "''Value''" "[(''Value'', VNone)]" 0
      "[[(''Value'', CStr ''Length [mm]'')]]" "''Length [mm]''" literal_eval_lists
      "[]" "[(''Value'', CStr ''Length [mm]'')]" LiteralError]
  by (simp add: run_simps enclosed_def strip_def)

text \<open>
  The claim as the specification words it fails: \<open>Length [mm]\<close> is not enclosed in
  square brackets, and it is not passed through: it is parsed, and the run fails.
\<close>

theorem unenclosed_brackets_counterexample:
  "\<not> enclosed ''Length [mm]''
   \<and> snd (jsonify literal_eval_lists [[(''Name'', CStr ''Length [mm]'')]] [(''Name'', VNone)])
       = Inl LiteralError"
  by (simp add: run_simps enclosed_def strip_def)

text \<open>
  Claim C5. Every object the row mapper returns has exactly the keys of the template, in
  the template's order, so no extra column appears in the output; for every row, each
  column that is no key of the template prints one line; such columns change nothing
  else: without them the mapper fails or returns the same objects, and when it fails,
  the failing cell belongs to a column the template knows.
\<close>

theorem unknown_columns_dropped:
  "(jsonify literal_eval df json_part = (out, Inr jsons)
      \<longrightarrow> (\<forall>obj \<in> set jsons. keys obj = keys json_part) \<and> length jsons = length df
          \<and> out = concat (map (diagnostics json_part) df))
   \<and> snd (jsonify literal_eval (map (recognised json_part) df) json_part)
       = snd (jsonify literal_eval df json_part)
   \<and> (snd (jsonify literal_eval df json_part) = Inl e
      \<longrightarrow> (\<exists>row c x. row \<in> set df \<and> (c, x) \<in> set row \<and> c \<in> set (keys json_part)
             \<and> coerce literal_eval x = Inl e))"
  using jsonify_keys [of literal_eval df json_part out jsons]
    jsonify_length [of literal_eval df json_part out jsons]
    jsonify_out [of literal_eval df json_part out jsons]
    jsonify_recognised [of literal_eval json_part df]
    jsonify_fails_only [of literal_eval df json_part e]
  by blast

theorem unknown_columns_dropped_witness:
  "jsonify literal_eval_lists [[(''Code'', CStr ''A1''), (''Colour'', CInt 5)], [(''Colour'', CNaN)]]
       [(''Code'', VNone), (''Name'', VNone)]
     = ([no_such_property ''Colour'', no_such_property ''Colour''],
        Inr [[(''Code'', VStr ''A1''), (''Name'', VNone)], [(''Code'', VNone), (''Name'', VNone)]])
   \<and> keys [(''Code'', VStr ''A1''), (''Name'', VNone)] = keys [(''Code'', VNone), (''Name'', VNone)]
   \<and> snd (jsonify literal_eval_lists [[(''Code'', CStr ''A1'')], []]
            [(''Code'', VNone), (''Name'', VNone)])
       = Inr [[(''Code'', VStr ''A1''), (''Name'', VNone)], [(''Code'', VNone), (''Name'', VNone)]]
   \<and> snd (jsonify literal_eval_lists [[(''Colour'', CStr ''[''), (''Code'', CStr ''[x]'')]]
            [(''Code'', VNone)]) = Inl LiteralError"
  using unknown_columns_dropped [of literal_eval_lists
      "[[(''Code'', CStr ''A1''), (''Colour'', CInt 5)], [(''Colour'', CNaN)]]"
      "[(''Code'', VNone), (''Name'', VNone)]"
      "[no_such_property ''Colour'', no_such_property ''Colour'']"
      "[[(''Code'', VStr ''A1''), (''Name'', VNone)], [(''Code'', VNone), (''Name'', VNone)]]"
      LiteralError]
    unknown_columns_dropped [of literal_eval_lists
      "[[(''Colour'', CStr ''[''), (''Code'', CStr ''[x]'')]]" "[(''Code'', VNone)]" "[]" "[]"
      LiteralError]
  by (simp add: run_simps)

section \<open>The linker\<close>

lemma first_match_bound: "first_match ps r = Inr i \<Longrightarrow> i < length ps"
  by (induction ps arbitrary: i) (auto split: sum.splits if_splits)

lemma first_match_cong:
  "map (\<lambda>item. getitem item ''Code'') ps = map (\<lambda>item. getitem item ''Code'') qs
    \<Longrightarrow> first_match ps r = first_match qs r"
proof (induction ps arbitrary: qs)
  case Nil
  then show ?case by simp
next
  case (Cons p ps)
  then obtain q qs' where q: "qs = q # qs'" by (cases qs) auto
  with Cons.prems have "getitem p ''Code'' = getitem q ''Code''"
    and "map (\<lambda>item. getitem item ''Code'') ps = map (\<lambda>item. getitem item ''Code'') qs'"
    by auto
  with Cons.IH [of qs'] q show ?case by (auto split: sum.splits)
qed

lemma first_match_found:
  "first_match ps r = Inr i \<Longrightarrow> code_is r (ps ! i) \<and> (\<forall>j<i. \<not> code_is r (ps ! j))"
proof (induction ps arbitrary: i)
  case Nil
  then show ?case by simp
next
  case (Cons p ps)
  show ?case
  proof (cases "code_is r p")
    case True
    then have "i = 0" using Cons.prems by (auto simp: code_is_def split: sum.splits)
    with True show ?thesis by simp
  next
    case False
    then obtain n where n: "first_match ps r = Inr n" "i = Suc n"
      using Cons.prems by (auto simp: code_is_def split: sum.splits if_splits)
    from Cons.IH [OF n(1)] False n(2) show ?thesis
      by (auto simp: less_Suc_eq_0_disj)
  qed
qed

lemma first_match_none:
  "\<forall>p \<in> set ps. \<not> code_is r p \<Longrightarrow> \<exists>e. first_match ps r = Inl e"
  by (induction ps) (auto simp: code_is_def split: sum.splits)

lemma getitem_no_stop: "getitem v k \<noteq> Inl StopIteration"
  by (cases v) (auto split: option.splits)

lemma first_match_stop:
  "first_match ps r = Inl StopIteration \<Longrightarrow> \<forall>p \<in> set ps. \<not> code_is r p"
  by (induction ps) (auto simp: code_is_def getitem_no_stop split: sum.splits if_splits)

lemma first_match_all_coded:
  "\<forall>p \<in> set ps. \<exists>code. getitem p ''Code'' = Inr code \<and> \<not> py_eq code r
    \<Longrightarrow> first_match ps r = Inl StopIteration"
  by (induction ps) (auto split: sum.splits)

lemma append_to_Inr:
  "append_to item field child = Inr item' \<longleftrightarrow>
     (\<exists>d xs. item = VDict d \<and> map_of d field = Some (VList xs)
        \<and> item' = VDict (dict_set field (VList (xs @ [child])) d))"
  by (cases item) (auto split: option.splits pyval.splits)

lemma attach_list_Inr:
  "attach (VList ps) field r child = Inr coll' \<longleftrightarrow>
     (\<exists>i d xs. first_match ps r = Inr i \<and> ps ! i = VDict d \<and> map_of d field = Some (VList xs)
        \<and> coll' = VList (ps[i := VDict (dict_set field (VList (xs @ [child])) d)]))"
  by (auto simp: attach_def append_to_Inr split: sum.splits)

lemma getitem_after_append:
  "k \<noteq> field \<Longrightarrow> getitem (VDict (dict_set field v d)) k = getitem (VDict d) k"
  by (simp add: map_of_dict_set)

lemma child_list_after_append:
  "map_of d field = Some (VList xs)
    \<Longrightarrow> child_list field (VDict (dict_set field (VList (xs @ [c])) d)) = child_list field (VDict d) @ [c]"
  by (simp add: child_list_def map_of_dict_set)

lemma dict_pop_keys: "origin \<notin> set (keys (dict_pop origin child))"
  by (auto simp: keys_def dict_pop_def)

lemma dict_pop_other: "k \<noteq> origin \<Longrightarrow> map_of (dict_pop origin child) k = map_of child k"
  by (induction child) (auto simp: dict_pop_def)

text \<open>One pass of a linking loop over a list of parents.\<close>

lemma link_step:
  assumes "link origin parents field b child = Inr b'"
    and "map_of b parents = Some (VList ps)"
  shows "\<exists>i d xs. linked_to origin ps i child \<and> i < length ps \<and> ps ! i = VDict d
           \<and> map_of d field = Some (VList xs)
           \<and> b' = dict_set parents
                    (VList (ps[i := VDict (dict_set field
                                  (VList (xs @ [VDict (dict_pop origin child)])) d)])) b"
proof -
  from assms obtain r coll' where r: "map_of child origin = Some r"
    and a: "attach (VList ps) field r (VDict (dict_pop origin child)) = Inr coll'"
    and b': "b' = dict_set parents coll' b"
    by (auto simp: link_def split: option.splits sum.splits)
  from a obtain i d xs where i: "first_match ps r = Inr i" "ps ! i = VDict d"
      "map_of d field = Some (VList xs)"
      "coll' = VList (ps[i := VDict (dict_set field (VList (xs @ [VDict (dict_pop origin child)])) d)])"
    unfolding attach_list_Inr by blast
  from i(1) r have "linked_to origin ps i child" by (simp add: linked_to_def)
  with i b' first_match_bound [OF i(1)] show ?thesis by blast
qed

lemma codes_after_append:
  assumes "field \<noteq> ''Code''" "i < length ps" "ps ! i = VDict d"
  shows "map (\<lambda>item. getitem item ''Code'') (ps[i := VDict (dict_set field v d)])
         = map (\<lambda>item. getitem item ''Code'') ps"
proof -
  have "getitem (VDict (dict_set field v d)) ''Code'' = getitem (ps ! i) ''Code''"
    using assms by (simp add: map_of_dict_set)
  then show ?thesis
    using assms(2) by (simp add: map_update list_update_same_conv)
qed

lemma linked_to_after_append:
  assumes "field \<noteq> ''Code''" "i < length ps" "ps ! i = VDict d"
  shows "linked_to origin (ps[i := VDict (dict_set field v d)]) j c = linked_to origin ps j c"
  using first_match_cong [OF codes_after_append [OF assms]]
  by (simp add: linked_to_def split: option.splits)

lemma linked_to_unique: "linked_to origin ps i c \<Longrightarrow> linked_to origin ps j c \<Longrightarrow> i = j"
  by (auto simp: linked_to_def split: option.splits)


lemma keys_dict_set_present:
  "map_of b k = Some v \<Longrightarrow> keys (dict_set k w b) = keys b"
  by (rule keys_dict_set_keys) (auto simp: keys_def dest: map_of_SomeD intro: rev_image_eqI)

lemma link_loop_frame:
  assumes "for_each (link origin parents field) children b = Inr b'"
    and "map_of b parents = Some (VList ps)"
    and "field \<noteq> ''Code''"
  shows "\<exists>ps'. map_of b' parents = Some (VList ps') \<and> length ps' = length ps
           \<and> map (\<lambda>item. getitem item ''Code'') ps' = map (\<lambda>item. getitem item ''Code'') ps
           \<and> (\<forall>i<length ps. \<forall>k. k \<noteq> field \<longrightarrow> getitem (ps' ! i) k = getitem (ps ! i) k)
           \<and> (\<forall>i<length ps. \<forall>d. ps ! i = VDict d \<longrightarrow> (\<exists>d'. ps' ! i = VDict d' \<and> keys d' = keys d))
           \<and> (\<forall>k. k \<noteq> parents \<longrightarrow> map_of b' k = map_of b k)
           \<and> keys b' = keys b"
  using assms(1,2)
proof (induction children arbitrary: b ps)
  case Nil
  then show ?case by simp
next
  case (Cons c cs)
  from Cons.prems(1) obtain b1 where s1: "link origin parents field b c = Inr b1"
    and rest: "for_each (link origin parents field) cs b1 = Inr b'"
    by (auto split: sum.splits)
  from link_step [OF s1 Cons.prems(2)] obtain i0 d xs where
    i0: "i0 < length ps" "ps ! i0 = VDict d" "map_of d field = Some (VList xs)"
    and b1: "b1 = dict_set parents
               (VList (ps[i0 := VDict (dict_set field (VList (xs @ [VDict (dict_pop origin c)])) d)])) b"
    by blast
  define d1 where "d1 = dict_set field (VList (xs @ [VDict (dict_pop origin c)])) d"
  define ps1 where "ps1 = ps[i0 := VDict d1]"
  have m1: "map_of b1 parents = Some (VList ps1)"
    using b1 by (simp add: map_of_dict_set ps1_def d1_def)
  from Cons.IH [OF rest m1] obtain ps' where
    p: "map_of b' parents = Some (VList ps')" "length ps' = length ps1"
      "map (\<lambda>item. getitem item ''Code'') ps' = map (\<lambda>item. getitem item ''Code'') ps1"
      "\<forall>i<length ps1. \<forall>k. k \<noteq> field \<longrightarrow> getitem (ps' ! i) k = getitem (ps1 ! i) k"
      "\<forall>i<length ps1. \<forall>d. ps1 ! i = VDict d \<longrightarrow> (\<exists>d'. ps' ! i = VDict d' \<and> keys d' = keys d)"
      "\<forall>k. k \<noteq> parents \<longrightarrow> map_of b' k = map_of b1 k"
      "keys b' = keys b1"
    by blast
  have len: "length ps1 = length ps" by (simp add: ps1_def)
  have codes: "map (\<lambda>item. getitem item ''Code'') ps1 = map (\<lambda>item. getitem item ''Code'') ps"
    unfolding ps1_def d1_def by (rule codes_after_append [OF assms(3) i0(1,2)])
  have other: "getitem (ps1 ! i) k = getitem (ps ! i) k" if "i < length ps" "k \<noteq> field" for i k
    using that i0 by (cases "i = i0") (simp_all add: ps1_def d1_def map_of_dict_set)
  have kd1: "keys d1 = keys d"
    unfolding d1_def using i0(3) by (rule keys_dict_set_present)
  have dicts: "\<exists>d'. ps' ! i = VDict d' \<and> keys d' = keys e" if "i < length ps" "ps ! i = VDict e" for i e
  proof (cases "i = i0")
    case True
    then have "ps1 ! i = VDict d1" "e = d" using that i0 by (simp_all add: ps1_def)
    with p(5) that(1) len kd1 show ?thesis by auto
  next
    case False
    then have "ps1 ! i = VDict e" using that by (simp add: ps1_def)
    with p(5) that(1) len show ?thesis by auto
  qed
  have keep: "map_of b' k = map_of b k" if "k \<noteq> parents" for k
    using that p(6) b1 by (simp add: map_of_dict_set)
  have kb: "keys b' = keys b"
    using p(7) b1 keys_dict_set_present [OF Cons.prems(2)] by simp
  show ?case
    using p(1,2,3,4) len codes other dicts keep kb by (intro exI [of _ ps']) auto
qed

lemma link_loop_children:
  assumes "for_each (link origin parents field) children b = Inr b'"
    and "map_of b parents = Some (VList ps)"
    and "field \<noteq> ''Code''"
    and "map_of b' parents = Some (VList ps')"
    and "i < length ps"
  shows "child_list field (ps' ! i) =
           child_list field (ps ! i)
           @ map (\<lambda>c. VDict (dict_pop origin c)) (filter (linked_to origin ps i) children)"
  using assms(1,2,4,5)
proof (induction children arbitrary: b ps)
  case Nil
  then show ?case by simp
next
  case (Cons c cs)
  from Cons.prems(1) obtain b1 where s1: "link origin parents field b c = Inr b1"
    and rest: "for_each (link origin parents field) cs b1 = Inr b'"
    by (auto split: sum.splits)
  from link_step [OF s1 Cons.prems(2)] obtain i0 d xs where
    i0: "linked_to origin ps i0 c" "i0 < length ps" "ps ! i0 = VDict d"
      "map_of d field = Some (VList xs)"
    and b1: "b1 = dict_set parents
               (VList (ps[i0 := VDict (dict_set field (VList (xs @ [VDict (dict_pop origin c)])) d)])) b"
    by blast
  define d1 where "d1 = dict_set field (VList (xs @ [VDict (dict_pop origin c)])) d"
  define ps1 where "ps1 = ps[i0 := VDict d1]"
  have m1: "map_of b1 parents = Some (VList ps1)"
    using b1 by (simp add: map_of_dict_set ps1_def d1_def)
  have len: "i < length ps1" using Cons.prems(4) by (simp add: ps1_def)
  have same: "linked_to origin ps1 j x = linked_to origin ps j x" for j x
    unfolding ps1_def d1_def by (rule linked_to_after_append [OF assms(3) i0(2,3)])
  then have filt: "filter (linked_to origin ps1 i) cs = filter (linked_to origin ps i) cs"
    by (auto intro: filter_cong)
  from Cons.IH [OF rest m1 Cons.prems(3) len]
  have ih: "child_list field (ps' ! i) =
           child_list field (ps1 ! i)
           @ map (\<lambda>c. VDict (dict_pop origin c)) (filter (linked_to origin ps i) cs)"
    by (simp add: filt)
  show ?case
  proof (cases "i = i0")
    case True
    then have "child_list field (ps1 ! i) = child_list field (ps ! i) @ [VDict (dict_pop origin c)]"
      using i0 by (simp add: ps1_def d1_def child_list_after_append)
    moreover have "linked_to origin ps i c" using True i0(1) by simp
    ultimately show ?thesis using ih by simp
  next
    case False
    then have "ps1 ! i = ps ! i" by (simp add: ps1_def)
    moreover have "\<not> linked_to origin ps i c"
      using False i0(1) linked_to_unique by blast
    ultimately show ?thesis using ih by simp
  qed
qed

lemma code_is_codes:
  "map (\<lambda>item. getitem item ''Code'') ps = map (\<lambda>item. getitem item ''Code'') qs
    \<Longrightarrow> (\<forall>p \<in> set ps. \<not> code_is r p) = (\<forall>q \<in> set qs. \<not> code_is r q)"
proof (induction ps arbitrary: qs)
  case Nil
  then show ?case by simp
next
  case (Cons p ps)
  then obtain q qs' where q: "qs = q # qs'" by (cases qs) auto
  with Cons.prems have "getitem p ''Code'' = getitem q ''Code''"
    and "map (\<lambda>item. getitem item ''Code'') ps = map (\<lambda>item. getitem item ''Code'') qs'"
    by auto
  with Cons.IH [of qs'] q show ?case by (simp add: code_is_def)
qed

lemma link_loop_unmatched:
  assumes "map_of b parents = Some (VList ps)"
    and "field \<noteq> ''Code''"
    and "c \<in> set children"
    and "map_of c origin = Some r"
    and "\<forall>p \<in> set ps. \<not> code_is r p"
  shows "\<exists>e. for_each (link origin parents field) children b = Inl e"
  using assms(1,3,5)
proof (induction children arbitrary: b ps)
  case Nil
  then show ?case by simp
next
  case (Cons x xs)
  show ?case
  proof (cases "link origin parents field b x")
    case (Inl e)
    then show ?thesis by simp
  next
    case (Inr b1)
    from link_step [OF Inr Cons.prems(1)] obtain i0 d ys where
      i0: "linked_to origin ps i0 x" "i0 < length ps" "ps ! i0 = VDict d"
      and b1: "b1 = dict_set parents
                 (VList (ps[i0 := VDict (dict_set field (VList (ys @ [VDict (dict_pop origin x)])) d)])) b"
      by blast
    define ps1 where
      "ps1 = ps[i0 := VDict (dict_set field (VList (ys @ [VDict (dict_pop origin x)])) d)]"
    have m1: "map_of b1 parents = Some (VList ps1)"
      using b1 by (simp add: map_of_dict_set ps1_def)
    have "map (\<lambda>item. getitem item ''Code'') ps1 = map (\<lambda>item. getitem item ''Code'') ps"
      unfolding ps1_def by (rule codes_after_append [OF assms(2) i0(2,3)])
    from code_is_codes [OF this] Cons.prems(3)
    have none1: "\<forall>p \<in> set ps1. \<not> code_is r p" by simp
    have "x \<noteq> c"
    proof
      assume "x = c"
      with i0(1) assms(4) have "first_match ps r = Inr i0" by (simp add: linked_to_def)
      from first_match_found [OF this] i0(2) Cons.prems(3) show False by auto
    qed
    then have "c \<in> set xs" using Cons.prems(2) by auto
    from Cons.IH [OF m1 this none1] Inr show ?thesis by simp
  qed
qed

lemma dict_set_same: "map_of d k = Some v \<Longrightarrow> dict_set k v d = d"
  by (induction d) (auto split: if_splits)

lemma attach_dict_fails:
  "attach (VDict d) field r child = Inl (if d = [] then StopIteration else TypeError)"
  by (cases d) (auto simp: attach_def)

lemma attach_each_dict_fails:
  "attach_each (VDict d # rest) field r child = Inl (if d = [] then StopIteration else TypeError)"
  by (simp add: attach_dict_fails)

lemma link_value_fails:
  assumes "map_of b ''Classifications'' = Some (VList (VDict d # rest))"
  shows "\<exists>e. link_value b prop_val = Inl e"
proof -
  have "map_of (dict_set ''Properties'' v b) ''Classifications'' = Some (VList (VDict d # rest))" for v
    using assms by (simp add: map_of_dict_set)
  then show ?thesis
    unfolding link_value_def Let_def
    by (auto simp: attach_dict_fails split: option.splits sum.splits)
qed

lemma link_value_no_classifications:
  assumes "map_of b ''Classifications'' = Some (VList [])"
  shows "link_value b prop_val
         = link ''(Origin Property Code OR ClassificationProperty Code)'' ''Properties''
             ''AllowedValues'' b prop_val"
proof -
  have "map_of (dict_set ''Properties'' v b) ''Classifications'' = Some (VList [])" for v
    using assms by (simp add: map_of_dict_set)
  then have "dict_set ''Classifications'' (VList []) (dict_set ''Properties'' v b)
             = dict_set ''Properties'' v b" for v
    by (rule dict_set_same)
  then show ?thesis
    using assms unfolding link_value_def link_def Let_def
    by (auto simp: map_of_dict_set split: option.splits sum.splits)
qed

lemma excel2bsdd_success:
  assumes "snd (excel2bsdd lit T excel) = Inr b"
  obtains d doms cs ms prs cps b1 crs b2 pvs b3 prels where
    "snd (jsonify lit (domain excel) (Domain_template T)) = Inr (d # doms)"
    "snd (jsonify lit (classification excel) (Classification_template T)) = Inr cs"
    "snd (jsonify lit (material excel) (Material_template T)) = Inr ms"
    "snd (jsonify lit (property excel) (Property_template T)) = Inr prs"
    "snd (jsonify lit (classificationproperty excel) (ClassificationProperty_template T)) = Inr cps"
    "for_each (link ''(Origin Classification Code)'' ''Classifications'' ''ClassificationProperties'')
       cps (top_level d cs ms prs) = Inr b1"
    "snd (jsonify lit (classificationrelation excel) (ClassificationRelation_template T)) = Inr crs"
    "for_each (link ''(Origin Classification Code)'' ''Classifications'' ''ClassificationRelations'')
       crs b1 = Inr b2"
    "snd (jsonify lit (propertyvalue excel) (AllowedValue_template T)) = Inr pvs"
    "for_each link_value pvs b2 = Inr b3"
    "snd (jsonify lit (propertyrelation excel) (PropertyRelation_template T)) = Inr prels"
    "for_each (link ''(Origin Property)'' ''Properties'' ''PropertyRelations'') prels b3 = Inr b"
  using assms unfolding excel2bsdd_def Let_def top_level_def
  by (auto simp: snd_and_then lift_def index0_def split: sum.splits list.splits)

section \<open>The pipeline\<close>

lemma top_level_lookup:
  "map_of (top_level d cs ms prs) ''Classifications'' = Some (VList (map VDict cs))"
  "map_of (top_level d cs ms prs) ''Materials'' = Some (VList (map VDict ms))"
  "map_of (top_level d cs ms prs) ''Properties'' = Some (VList (map VDict prs))"
  "k \<noteq> ''Classifications'' \<Longrightarrow> k \<noteq> ''Materials'' \<Longrightarrow> k \<noteq> ''Properties''
    \<Longrightarrow> map_of (top_level d cs ms prs) k = map_of d k"
  by (simp_all add: top_level_def map_of_dict_set)

lemma linked_to_cong:
  "map (\<lambda>item. getitem item ''Code'') ps = map (\<lambda>item. getitem item ''Code'') qs
    \<Longrightarrow> linked_to origin ps i c = linked_to origin qs i c"
  using first_match_cong [of ps qs] by (simp add: linked_to_def split: option.splits)

lemma child_list_cong:
  "getitem x field = getitem y field \<Longrightarrow> child_list field x = child_list field y"
  by (simp add: child_list_def)

lemma link_other_keys:
  "link origin parents field b c = Inr b' \<Longrightarrow> k \<noteq> parents \<Longrightarrow> map_of b' k = map_of b k"
  by (auto simp: link_def map_of_dict_set split: option.splits sum.splits)

text \<open>The loop over the property values returns only when it has no row or there is no
  classification, and then it is a linking loop over the properties.\<close>

lemma link_value_loop:
  assumes "for_each link_value pvs b = Inr b'"
    and "map_of b ''Classifications'' = Some (VList clss)"
    and "\<forall>x \<in> set clss. \<exists>d. x = VDict d"
  shows "(pvs = [] \<or> clss = [])
         \<and> for_each (link ''(Origin Property Code OR ClassificationProperty Code)'' ''Properties''
               ''AllowedValues'') pvs b = Inr b'"
proof (cases pvs)
  case Nil
  with assms(1) show ?thesis by simp
next
  case (Cons pv rest)
  have empty: "clss = []"
  proof (cases clss)
    case Nil
    then show ?thesis .
  next
    case (Cons x xs)
    with assms(3) obtain d where "x = VDict d" by auto
    with Cons assms(2) link_value_fails [of b d xs pv] obtain e where "link_value b pv = Inl e"
      by auto
    with assms(1) \<open>pvs = pv # rest\<close> show ?thesis by simp
  qed
  have "for_each (link ''(Origin Property Code OR ClassificationProperty Code)'' ''Properties''
               ''AllowedValues'') pvs c = Inr b'"
    if "for_each link_value pvs c = Inr b'" "map_of c ''Classifications'' = Some (VList [])" for c
    using that
  proof (induction pvs arbitrary: c)
    case Nil
    then show ?case by simp
  next
    case (Cons x xs)
    have eq: "link_value c x = link ''(Origin Property Code OR ClassificationProperty Code)''
                ''Properties'' ''AllowedValues'' c x"
      by (rule link_value_no_classifications [OF Cons.prems(2)])
    from Cons.prems(1) obtain c1 where c1: "link_value c x = Inr c1"
      and rest: "for_each link_value xs c1 = Inr b'"
      by (auto split: sum.splits)
    have "map_of c1 ''Classifications'' = Some (VList [])"
      using link_other_keys [of _ "''Properties''" _ c x c1 "''Classifications''"] c1 eq
        Cons.prems(2) by simp
    from Cons.IH [OF rest this] c1 eq show ?case by simp
  qed
  with assms(1,2) empty show ?thesis by simp
qed

lemma jsonify_first:
  "snd (jsonify lit df p) = Inr (d # doms)
    \<Longrightarrow> \<exists>row rows. df = row # rows \<and> snd (fill lit row p) = Inr d"
  by (cases df) (auto simp: snd_and_then split: sum.splits)

lemma jsonify_snd_length:
  "snd (jsonify lit df p) = Inr js \<Longrightarrow> length js = length df"
  using jsonify_length [of lit df p "fst (jsonify lit df p)" js]
  by (cases "jsonify lit df p") simp

lemma excel2bsdd_tree:
  assumes run: "snd (excel2bsdd lit T excel) = Inr b"
  obtains d doms cs ms prs cps crs pvs prels clss props where
    "snd (jsonify lit (domain excel) (Domain_template T)) = Inr (d # doms)"
    "snd (jsonify lit (classification excel) (Classification_template T)) = Inr cs"
    "snd (jsonify lit (material excel) (Material_template T)) = Inr ms"
    "snd (jsonify lit (property excel) (Property_template T)) = Inr prs"
    "snd (jsonify lit (classificationproperty excel) (ClassificationProperty_template T)) = Inr cps"
    "snd (jsonify lit (classificationrelation excel) (ClassificationRelation_template T)) = Inr crs"
    "snd (jsonify lit (propertyvalue excel) (AllowedValue_template T)) = Inr pvs"
    "snd (jsonify lit (propertyrelation excel) (PropertyRelation_template T)) = Inr prels"
    "map_of b ''Classifications'' = Some (VList clss)" "length clss = length cs"
    "map_of b ''Properties'' = Some (VList props)" "length props = length prs"
    "map_of b ''Materials'' = Some (VList (map VDict ms))"
    "\<forall>k. k \<noteq> ''Classifications'' \<and> k \<noteq> ''Materials'' \<and> k \<noteq> ''Properties''
        \<longrightarrow> map_of b k = map_of d k"
    "\<forall>i<length cs. child_list ''ClassificationProperties'' (clss ! i)
        = child_list ''ClassificationProperties'' (VDict (cs ! i))
          @ linked_children ''(Origin Classification Code)'' cs i cps"
    "\<forall>i<length cs. child_list ''ClassificationRelations'' (clss ! i)
        = child_list ''ClassificationRelations'' (VDict (cs ! i))
          @ linked_children ''(Origin Classification Code)'' cs i crs"
    "\<forall>i<length prs. child_list ''AllowedValues'' (props ! i)
        = child_list ''AllowedValues'' (VDict (prs ! i))
          @ linked_children ''(Origin Property Code OR ClassificationProperty Code)'' prs i pvs"
    "\<forall>i<length prs. child_list ''PropertyRelations'' (props ! i)
        = child_list ''PropertyRelations'' (VDict (prs ! i))
          @ linked_children ''(Origin Property)'' prs i prels"
    "pvs = [] \<or> cs = []"
proof -
  from excel2bsdd_success [OF run] obtain d doms cs ms prs cps b1 crs b2 pvs b3 prels where
    j: "snd (jsonify lit (domain excel) (Domain_template T)) = Inr (d # doms)"
      "snd (jsonify lit (classification excel) (Classification_template T)) = Inr cs"
      "snd (jsonify lit (material excel) (Material_template T)) = Inr ms"
      "snd (jsonify lit (property excel) (Property_template T)) = Inr prs"
      "snd (jsonify lit (classificationproperty excel) (ClassificationProperty_template T)) = Inr cps"
      "snd (jsonify lit (classificationrelation excel) (ClassificationRelation_template T)) = Inr crs"
      "snd (jsonify lit (propertyvalue excel) (AllowedValue_template T)) = Inr pvs"
      "snd (jsonify lit (propertyrelation excel) (PropertyRelation_template T)) = Inr prels"
    and l1: "for_each (link ''(Origin Classification Code)'' ''Classifications''
               ''ClassificationProperties'') cps (top_level d cs ms prs) = Inr b1"
    and l2: "for_each (link ''(Origin Classification Code)'' ''Classifications''
               ''ClassificationRelations'') crs b1 = Inr b2"
    and l3: "for_each link_value pvs b2 = Inr b3"
    and l4: "for_each (link ''(Origin Property)'' ''Properties'' ''PropertyRelations'') prels b3 = Inr b"
    by metis
  define b0 where "b0 = top_level d cs ms prs"
  define C0 where "C0 = map VDict cs"
  define P0 where "P0 = map VDict prs"
  have b0: "map_of b0 ''Classifications'' = Some (VList C0)"
    "map_of b0 ''Properties'' = Some (VList P0)"
    "map_of b0 ''Materials'' = Some (VList (map VDict ms))"
    by (simp_all add: b0_def C0_def P0_def top_level_lookup)
  have b0k: "map_of b0 k = map_of d k"
    if "k \<noteq> ''Classifications''" "k \<noteq> ''Materials''" "k \<noteq> ''Properties''" for k
    using that by (simp add: b0_def top_level_lookup)
  \<comment> \<open>the first loop\<close>
  from link_loop_frame [OF l1 [folded b0_def] b0(1)] obtain C1 where
    c1: "map_of b1 ''Classifications'' = Some (VList C1)" "length C1 = length C0"
      "map (\<lambda>item. getitem item ''Code'') C1 = map (\<lambda>item. getitem item ''Code'') C0"
      "\<forall>i<length C0. \<forall>k. k \<noteq> ''ClassificationProperties'' \<longrightarrow> getitem (C1 ! i) k = getitem (C0 ! i) k"
      "\<forall>i<length C0. \<forall>d. C0 ! i = VDict d \<longrightarrow> (\<exists>d'. C1 ! i = VDict d' \<and> keys d' = keys d)"
      "\<forall>k. k \<noteq> ''Classifications'' \<longrightarrow> map_of b1 k = map_of b0 k"
    by auto
  have ch1: "child_list ''ClassificationProperties'' (C1 ! i) =
           child_list ''ClassificationProperties'' (C0 ! i)
           @ map (\<lambda>c. VDict (dict_pop ''(Origin Classification Code)'' c))
               (filter (linked_to ''(Origin Classification Code)'' C0 i) cps)"
    if "i < length C0" for i
    by (rule link_loop_children [OF l1 [folded b0_def] b0(1) _ c1(1) that]) simp
  \<comment> \<open>the second loop\<close>
  from link_loop_frame [OF l2 c1(1)] obtain C2 where
    c2: "map_of b2 ''Classifications'' = Some (VList C2)" "length C2 = length C1"
      "map (\<lambda>item. getitem item ''Code'') C2 = map (\<lambda>item. getitem item ''Code'') C1"
      "\<forall>i<length C1. \<forall>k. k \<noteq> ''ClassificationRelations'' \<longrightarrow> getitem (C2 ! i) k = getitem (C1 ! i) k"
      "\<forall>i<length C1. \<forall>d. C1 ! i = VDict d \<longrightarrow> (\<exists>d'. C2 ! i = VDict d' \<and> keys d' = keys d)"
      "\<forall>k. k \<noteq> ''Classifications'' \<longrightarrow> map_of b2 k = map_of b1 k"
    by auto
  have ch2: "child_list ''ClassificationRelations'' (C2 ! i) =
           child_list ''ClassificationRelations'' (C1 ! i)
           @ map (\<lambda>c. VDict (dict_pop ''(Origin Classification Code)'' c))
               (filter (linked_to ''(Origin Classification Code)'' C1 i) crs)"
    if "i < length C1" for i
    by (rule link_loop_children [OF l2 c1(1) _ c2(1) that]) simp
  have dicts2: "\<forall>x \<in> set C2. \<exists>d. x = VDict d"
  proof
    fix x assume "x \<in> set C2"
    then obtain i where i: "i < length C2" "x = C2 ! i" by (auto simp: in_set_conv_nth)
    then have "i < length cs" using c2(2) c1(2) by (simp add: C0_def)
    then have "C0 ! i = VDict (cs ! i)" by (simp add: C0_def)
    with c1(5) i(1) c2(2) c1(2) obtain d' where "C1 ! i = VDict d'" by auto
    with c2(5) i(1) c2(2) obtain d'' where "C2 ! i = VDict d''" by auto
    with i(2) show "\<exists>d. x = VDict d" by simp
  qed
  \<comment> \<open>the third loop\<close>
  from link_value_loop [OF l3 c2(1) dicts2]
  have none: "pvs = [] \<or> C2 = []"
    and l3': "for_each (link ''(Origin Property Code OR ClassificationProperty Code)''
                ''Properties'' ''AllowedValues'') pvs b2 = Inr b3"
    by simp_all
  have p2: "map_of b2 ''Properties'' = Some (VList P0)"
    using c2(6) c1(6) b0(2) by simp
  from link_loop_frame [OF l3' p2] obtain P3 where
    p3: "map_of b3 ''Properties'' = Some (VList P3)" "length P3 = length P0"
      "map (\<lambda>item. getitem item ''Code'') P3 = map (\<lambda>item. getitem item ''Code'') P0"
      "\<forall>i<length P0. \<forall>k. k \<noteq> ''AllowedValues'' \<longrightarrow> getitem (P3 ! i) k = getitem (P0 ! i) k"
      "\<forall>k. k \<noteq> ''Properties'' \<longrightarrow> map_of b3 k = map_of b2 k"
    by auto
  have ch3: "child_list ''AllowedValues'' (P3 ! i) =
           child_list ''AllowedValues'' (P0 ! i)
           @ map (\<lambda>c. VDict (dict_pop ''(Origin Property Code OR ClassificationProperty Code)'' c))
               (filter (linked_to ''(Origin Property Code OR ClassificationProperty Code)'' P0 i) pvs)"
    if "i < length P0" for i
    by (rule link_loop_children [OF l3' p2 _ p3(1) that]) simp
  \<comment> \<open>the fourth loop\<close>
  from link_loop_frame [OF l4 p3(1)] obtain P4 where
    p4: "map_of b ''Properties'' = Some (VList P4)" "length P4 = length P3"
      "\<forall>i<length P3. \<forall>k. k \<noteq> ''PropertyRelations'' \<longrightarrow> getitem (P4 ! i) k = getitem (P3 ! i) k"
      "\<forall>k. k \<noteq> ''Properties'' \<longrightarrow> map_of b k = map_of b3 k"
    by auto
  have ch4: "child_list ''PropertyRelations'' (P4 ! i) =
           child_list ''PropertyRelations'' (P3 ! i)
           @ map (\<lambda>c. VDict (dict_pop ''(Origin Property)'' c))
               (filter (linked_to ''(Origin Property)'' P3 i) prels)"
    if "i < length P3" for i
    by (rule link_loop_children [OF l4 p3(1) _ p4(1) that]) simp
  \<comment> \<open>the tree that is returned\<close>
  have fc: "map_of b ''Classifications'' = Some (VList C2)"
    using p4(4) p3(5) c2(1) by simp
  have fm: "map_of b ''Materials'' = Some (VList (map VDict ms))"
    using p4(4) p3(5) c2(6) c1(6) b0(3) by simp
  have fk: "\<forall>k. k \<noteq> ''Classifications'' \<and> k \<noteq> ''Materials'' \<and> k \<noteq> ''Properties''
        \<longrightarrow> map_of b k = map_of d k"
    using p4(4) p3(5) c2(6) c1(6) b0k by simp
  have lenC: "length C2 = length cs" using c2(2) c1(2) by (simp add: C0_def)
  have lenP: "length P4 = length prs" using p4(2) p3(2) by (simp add: P0_def)
  have r1: "\<forall>i<length cs. child_list ''ClassificationProperties'' (C2 ! i)
        = child_list ''ClassificationProperties'' (VDict (cs ! i))
          @ linked_children ''(Origin Classification Code)'' cs i cps"
  proof (intro allI impI)
    fix i assume i: "i < length cs"
    then have i0: "i < length C0" "i < length C1" using c1(2) by (simp_all add: C0_def)
    have "getitem (C2 ! i) ''ClassificationProperties'' = getitem (C1 ! i) ''ClassificationProperties''"
      using c2(4) i0(2) by simp
    then have "child_list ''ClassificationProperties'' (C2 ! i)
               = child_list ''ClassificationProperties'' (C1 ! i)"
      by (rule child_list_cong)
    with ch1 [OF i0(1)] i show "child_list ''ClassificationProperties'' (C2 ! i)
        = child_list ''ClassificationProperties'' (VDict (cs ! i))
          @ linked_children ''(Origin Classification Code)'' cs i cps"
      by (simp add: linked_children_def C0_def)
  qed
  have r2: "\<forall>i<length cs. child_list ''ClassificationRelations'' (C2 ! i)
        = child_list ''ClassificationRelations'' (VDict (cs ! i))
          @ linked_children ''(Origin Classification Code)'' cs i crs"
  proof (intro allI impI)
    fix i assume i: "i < length cs"
    then have i0: "i < length C0" "i < length C1" using c1(2) by (simp_all add: C0_def)
    have "getitem (C1 ! i) ''ClassificationRelations'' = getitem (C0 ! i) ''ClassificationRelations''"
      using c1(4) i0(1) by simp
    then have "child_list ''ClassificationRelations'' (C1 ! i)
               = child_list ''ClassificationRelations'' (C0 ! i)"
      by (rule child_list_cong)
    moreover have "linked_to ''(Origin Classification Code)'' C1 i
                   = linked_to ''(Origin Classification Code)'' C0 i"
      using linked_to_cong [OF c1(3)] by (intro ext)
    ultimately show "child_list ''ClassificationRelations'' (C2 ! i)
        = child_list ''ClassificationRelations'' (VDict (cs ! i))
          @ linked_children ''(Origin Classification Code)'' cs i crs"
      using ch2 [OF i0(2)] i by (simp add: linked_children_def C0_def)
  qed
  have r3: "\<forall>i<length prs. child_list ''AllowedValues'' (P4 ! i)
        = child_list ''AllowedValues'' (VDict (prs ! i))
          @ linked_children ''(Origin Property Code OR ClassificationProperty Code)'' prs i pvs"
  proof (intro allI impI)
    fix i assume i: "i < length prs"
    then have i0: "i < length P0" "i < length P3" using p3(2) by (simp_all add: P0_def)
    have "getitem (P4 ! i) ''AllowedValues'' = getitem (P3 ! i) ''AllowedValues''"
      using p4(3) i0(2) by simp
    then have "child_list ''AllowedValues'' (P4 ! i) = child_list ''AllowedValues'' (P3 ! i)"
      by (rule child_list_cong)
    with ch3 [OF i0(1)] i show "child_list ''AllowedValues'' (P4 ! i)
        = child_list ''AllowedValues'' (VDict (prs ! i))
          @ linked_children ''(Origin Property Code OR ClassificationProperty Code)'' prs i pvs"
      by (simp add: linked_children_def P0_def)
  qed
  have r4: "\<forall>i<length prs. child_list ''PropertyRelations'' (P4 ! i)
        = child_list ''PropertyRelations'' (VDict (prs ! i))
          @ linked_children ''(Origin Property)'' prs i prels"
  proof (intro allI impI)
    fix i assume i: "i < length prs"
    then have i0: "i < length P0" "i < length P3" using p3(2) by (simp_all add: P0_def)
    have "getitem (P3 ! i) ''PropertyRelations'' = getitem (P0 ! i) ''PropertyRelations''"
      using p3(4) i0(1) by simp
    then have "child_list ''PropertyRelations'' (P3 ! i) = child_list ''PropertyRelations'' (P0 ! i)"
      by (rule child_list_cong)
    moreover have "linked_to ''(Origin Property)'' P3 i = linked_to ''(Origin Property)'' P0 i"
      using linked_to_cong [OF p3(3)] by (intro ext)
    ultimately show "child_list ''PropertyRelations'' (P4 ! i)
        = child_list ''PropertyRelations'' (VDict (prs ! i))
          @ linked_children ''(Origin Property)'' prs i prels"
      using ch4 [OF i0(2)] i by (simp add: linked_children_def P0_def)
  qed
  have r5: "pvs = [] \<or> cs = []" using none lenC by auto
  show thesis
    by (rule that [OF j fc lenC p4(1) lenP fm fk r1 r2 r3 r4 r5])
qed

text \<open>The definitions that evaluate a run of the pipeline on a concrete workbook.\<close>

lemmas link_simps = excel2bsdd_def link_def link_value_def attach_def index0_def dict_pop_def
  spec_templates_def empty_excel_def example_domain_def Let_def main_def argv_at_def

lemma linked_to_first:
  "linked_to origin ps i child
    \<Longrightarrow> \<exists>related. map_of child origin = Some related \<and> i < length ps
          \<and> code_is related (ps ! i) \<and> (\<forall>j<i. \<not> code_is related (ps ! j))"
  by (auto simp: linked_to_def split: option.splits
      dest: first_match_bound first_match_found)

text \<open>When a linking loop returns: each child must be linkable against the parents as
  they were mapped, since a loop changes neither the codes of the parents nor the lists
  of the other fields.\<close>

lemma linkable_iff:
  "linkable origin field ps child \<longleftrightarrow>
     (\<exists>related i d xs. map_of child origin = Some related \<and> first_match ps related = Inr i
        \<and> ps ! i = VDict d \<and> map_of d field = Some (VList xs))"
proof
  assume "linkable origin field ps child"
  then obtain related i xs where a: "map_of child origin = Some related"
    "first_match ps related = Inr i" "getitem (ps ! i) field = Inr (VList xs)"
    by (auto simp: linkable_def split: option.splits sum.splits pyval.splits)
  from a(3) obtain d where "ps ! i = VDict d" "map_of d field = Some (VList xs)"
    by (cases "ps ! i") (auto split: option.splits)
  with a show "\<exists>related i d xs. map_of child origin = Some related \<and> first_match ps related = Inr i
        \<and> ps ! i = VDict d \<and> map_of d field = Some (VList xs)"
    by blast
next
  assume "\<exists>related i d xs. map_of child origin = Some related \<and> first_match ps related = Inr i
        \<and> ps ! i = VDict d \<and> map_of d field = Some (VList xs)"
  then show "linkable origin field ps child"
    by (auto simp: linkable_def)
qed

lemma link_Inr_iff:
  assumes "map_of b parents = Some (VList ps)"
  shows "(\<exists>b'. link origin parents field b child = Inr b') \<longleftrightarrow> linkable origin field ps child"
proof
  assume "\<exists>b'. link origin parents field b child = Inr b'"
  then obtain b' where "link origin parents field b child = Inr b'" ..
  from link_step [OF this assms] show "linkable origin field ps child"
    unfolding linkable_iff by (auto simp: linked_to_def split: option.splits)
next
  assume "linkable origin field ps child"
  then obtain related i d xs where a: "map_of child origin = Some related"
    "first_match ps related = Inr i" "ps ! i = VDict d" "map_of d field = Some (VList xs)"
    unfolding linkable_iff by blast
  then have "attach (VList ps) field related (VDict (dict_pop origin child))
      = Inr (VList (ps[i := VDict (dict_set field (VList (xs @ [VDict (dict_pop origin child)])) d)]))"
    by (simp add: attach_def)
  with a(1) assms show "\<exists>b'. link origin parents field b child = Inr b'"
    by (simp add: link_def)
qed

text \<open>Whether a child can be linked depends on the codes of the parents and on which of
  them hold a list under the field.\<close>

lemma linkable_cong:
  assumes "map (\<lambda>item. getitem item ''Code'') ps = map (\<lambda>item. getitem item ''Code'') qs"
    and "\<forall>i<length ps. (\<exists>xs. getitem (ps ! i) field = Inr (VList xs))
                        \<longleftrightarrow> (\<exists>xs. getitem (qs ! i) field = Inr (VList xs))"
  shows "linkable origin field ps child = linkable origin field qs child"
proof (cases "map_of child origin")
  case None
  then show ?thesis by (simp add: linkable_def)
next
  case (Some related)
  have fm: "first_match ps related = first_match qs related"
    by (rule first_match_cong [OF assms(1)])
  show ?thesis
  proof (cases "first_match ps related")
    case (Inl e)
    then have "first_match qs related = Inl e" using fm by simp
    with Inl Some show ?thesis by (simp add: linkable_def)
  next
    case (Inr i)
    from first_match_bound [OF Inr] assms(2)
    have "(\<exists>xs. getitem (ps ! i) field = Inr (VList xs))
          \<longleftrightarrow> (\<exists>xs. getitem (qs ! i) field = Inr (VList xs))"
      by simp
    then have "(case getitem (ps ! i) field of Inr (VList xs) \<Rightarrow> True | _ \<Rightarrow> False)
             = (case getitem (qs ! i) field of Inr (VList xs) \<Rightarrow> True | _ \<Rightarrow> False)"
      by (auto split: sum.splits pyval.splits)
    moreover have "first_match qs related = Inr i" using Inr fm by simp
    ultimately show ?thesis using Inr Some by (simp add: linkable_def)
  qed
qed

lemma link_loop_Inr_iff:
  assumes "map_of b parents = Some (VList ps)" "field \<noteq> ''Code''"
  shows "(\<exists>b'. for_each (link origin parents field) children b = Inr b')
         \<longleftrightarrow> list_all (linkable origin field ps) children"
  using assms(1)
proof (induction children arbitrary: b ps)
  case Nil
  then show ?case by simp
next
  case (Cons c cs)
  show ?case
  proof (cases "link origin parents field b c")
    case (Inl e)
    then have "\<not> linkable origin field ps c"
      using link_Inr_iff [OF Cons.prems, of origin field c] by simp
    with Inl show ?thesis by simp
  next
    case (Inr b1)
    then have lc: "linkable origin field ps c"
      using link_Inr_iff [OF Cons.prems, of origin field c] by auto
    from link_step [OF Inr Cons.prems] obtain i0 d xs where
      i0: "i0 < length ps" "ps ! i0 = VDict d" "map_of d field = Some (VList xs)"
      and b1: "b1 = dict_set parents
               (VList (ps[i0 := VDict (dict_set field (VList (xs @ [VDict (dict_pop origin c)])) d)])) b"
      by blast
    define ps1 where
      "ps1 = ps[i0 := VDict (dict_set field (VList (xs @ [VDict (dict_pop origin c)])) d)]"
    have m1: "map_of b1 parents = Some (VList ps1)"
      using b1 by (simp add: map_of_dict_set ps1_def)
    have codes: "map (\<lambda>item. getitem item ''Code'') ps1 = map (\<lambda>item. getitem item ''Code'') ps"
      unfolding ps1_def by (rule codes_after_append [OF assms(2) i0(1,2)])
    have lists: "\<forall>i<length ps1. (\<exists>xs. getitem (ps1 ! i) field = Inr (VList xs))
                        \<longleftrightarrow> (\<exists>xs. getitem (ps ! i) field = Inr (VList xs))"
    proof (intro allI impI)
      fix i assume "i < length ps1"
      show "(\<exists>xs. getitem (ps1 ! i) field = Inr (VList xs))
                        \<longleftrightarrow> (\<exists>xs. getitem (ps ! i) field = Inr (VList xs))"
      proof (cases "i = i0")
        case True
        then show ?thesis using i0 by (simp add: ps1_def map_of_dict_set)
      next
        case False
        then show ?thesis by (simp add: ps1_def)
      qed
    qed
    have "linkable origin field ps1 x = linkable origin field ps x" for x
      by (rule linkable_cong [OF codes lists])
    then have "list_all (linkable origin field ps1) cs = list_all (linkable origin field ps) cs"
      by (simp add: list_all_iff)
    with Cons.IH [OF m1] Inr lc show ?thesis by simp
  qed
qed

lemma link_value_loop_eq:
  "map_of c ''Classifications'' = Some (VList [])
    \<Longrightarrow> for_each link_value pvs c
        = for_each (link ''(Origin Property Code OR ClassificationProperty Code)'' ''Properties''
            ''AllowedValues'') pvs c"
proof (induction pvs arbitrary: c)
  case Nil
  then show ?case by simp
next
  case (Cons x xs)
  have eq: "link_value c x = link ''(Origin Property Code OR ClassificationProperty Code)''
                ''Properties'' ''AllowedValues'' c x"
    by (rule link_value_no_classifications [OF Cons.prems])
  show ?case
  proof (cases "link_value c x")
    case (Inl e)
    then have "link ''(Origin Property Code OR ClassificationProperty Code)''
                ''Properties'' ''AllowedValues'' c x = Inl e" using eq by simp
    with Inl show ?thesis by simp
  next
    case (Inr c1)
    have "map_of c1 ''Classifications'' = Some (VList [])"
      using link_other_keys [of _ "''Properties''" _ c x c1 "''Classifications''"] Inr eq
        Cons.prems by simp
    moreover have "link ''(Origin Property Code OR ClassificationProperty Code)''
                ''Properties'' ''AllowedValues'' c x = Inr c1" using Inr eq by simp
    ultimately show ?thesis using Cons.IH [of c1] Inr by simp
  qed
qed

lemma link_loop_then:
  assumes "for_each (link origin parents field) children b = Inr b1"
    and "map_of b parents = Some (VList ps)" and "field \<noteq> ''Code''" and "field' \<noteq> field"
  shows "\<exists>ps1. map_of b1 parents = Some (VList ps1) \<and> length ps1 = length ps
           \<and> (\<forall>x. linkable origin' field' ps1 x = linkable origin' field' ps x)
           \<and> (\<forall>k. k \<noteq> parents \<longrightarrow> map_of b1 k = map_of b k)
           \<and> ((\<forall>q \<in> set ps. \<exists>d. q = VDict d) \<longrightarrow> (\<forall>q \<in> set ps1. \<exists>d. q = VDict d))"
proof -
  from link_loop_frame [OF assms(1,2,3)] obtain ps1 where
    f: "map_of b1 parents = Some (VList ps1)" "length ps1 = length ps"
      "map (\<lambda>item. getitem item ''Code'') ps1 = map (\<lambda>item. getitem item ''Code'') ps"
      "\<forall>i<length ps. \<forall>k. k \<noteq> field \<longrightarrow> getitem (ps1 ! i) k = getitem (ps ! i) k"
      "\<forall>i<length ps. \<forall>d. ps ! i = VDict d \<longrightarrow> (\<exists>d'. ps1 ! i = VDict d' \<and> keys d' = keys d)"
      "\<forall>k. k \<noteq> parents \<longrightarrow> map_of b1 k = map_of b k"
    by auto
  have "\<forall>i<length ps1. (\<exists>xs. getitem (ps1 ! i) field' = Inr (VList xs))
                        \<longleftrightarrow> (\<exists>xs. getitem (ps ! i) field' = Inr (VList xs))"
    using f(2,4) assms(4) by simp
  then have l: "linkable origin' field' ps1 x = linkable origin' field' ps x" for x
    by (rule linkable_cong [OF f(3)])
  have d: "\<forall>q \<in> set ps1. \<exists>d. q = VDict d" if a: "\<forall>q \<in> set ps. \<exists>d. q = VDict d"
  proof
    fix q assume "q \<in> set ps1"
    then obtain i where i: "i < length ps1" "q = ps1 ! i" by (auto simp: in_set_conv_nth)
    then have "ps ! i \<in> set ps" using f(2) by simp
    with a obtain e where "ps ! i = VDict e" by auto
    with f(5) i f(2) show "\<exists>d. q = VDict d" by auto
  qed
  show ?thesis
    using f(1,2,6) l d by (intro exI [of _ ps1]) blast
qed

text \<open>When the four loops of the linker return.\<close>

lemma loops_return_iff:
  "(\<exists>b1 b2 b3 b.
      for_each (link ''(Origin Classification Code)'' ''Classifications'' ''ClassificationProperties'')
        cps (top_level d cs ms prs) = Inr b1
    \<and> for_each (link ''(Origin Classification Code)'' ''Classifications'' ''ClassificationRelations'')
        crs b1 = Inr b2
    \<and> for_each link_value pvs b2 = Inr b3
    \<and> for_each (link ''(Origin Property)'' ''Properties'' ''PropertyRelations'') prels b3 = Inr b)
   \<longleftrightarrow>
     list_all (linkable ''(Origin Classification Code)'' ''ClassificationProperties'' (map VDict cs)) cps
   \<and> list_all (linkable ''(Origin Classification Code)'' ''ClassificationRelations'' (map VDict cs)) crs
   \<and> list_all (linkable ''(Origin Property Code OR ClassificationProperty Code)'' ''AllowedValues''
         (map VDict prs)) pvs
   \<and> (pvs = [] \<or> cs = [])
   \<and> list_all (linkable ''(Origin Property)'' ''PropertyRelations'' (map VDict prs)) prels"
  (is "?L \<longleftrightarrow> ?R")
proof
  assume ?L
  then obtain b1 b2 b3 b where
    l1: "for_each (link ''(Origin Classification Code)'' ''Classifications''
           ''ClassificationProperties'') cps (top_level d cs ms prs) = Inr b1"
    and l2: "for_each (link ''(Origin Classification Code)'' ''Classifications''
           ''ClassificationRelations'') crs b1 = Inr b2"
    and l3: "for_each link_value pvs b2 = Inr b3"
    and l4: "for_each (link ''(Origin Property)'' ''Properties'' ''PropertyRelations'') prels b3 = Inr b"
    by blast
  have r1: "list_all (linkable ''(Origin Classification Code)'' ''ClassificationProperties''
              (map VDict cs)) cps"
    using link_loop_Inr_iff [OF top_level_lookup(1), of "''ClassificationProperties''"
        "''(Origin Classification Code)''" cps d cs ms prs] l1 by auto
  from link_loop_then [OF l1 top_level_lookup(1), of "''ClassificationRelations''"
      "''(Origin Classification Code)''"]
  obtain C1 where c1: "map_of b1 ''Classifications'' = Some (VList C1)"
    "length C1 = length (map VDict cs)"
    "\<forall>x. linkable ''(Origin Classification Code)'' ''ClassificationRelations'' C1 x
       = linkable ''(Origin Classification Code)'' ''ClassificationRelations'' (map VDict cs) x"
    "\<forall>k. k \<noteq> ''Classifications'' \<longrightarrow> map_of b1 k = map_of (top_level d cs ms prs) k"
    "\<forall>q \<in> set C1. \<exists>d. q = VDict d"
    by auto
  have r2: "list_all (linkable ''(Origin Classification Code)'' ''ClassificationRelations''
              (map VDict cs)) crs"
    using link_loop_Inr_iff [OF c1(1), of "''ClassificationRelations''"
        "''(Origin Classification Code)''" crs] l2 c1(3) by (auto simp: list_all_iff)
  from link_loop_then [OF l2 c1(1), of "''ClassificationProperties''" "''(Origin Classification Code)''"]
  obtain C2 where c2: "map_of b2 ''Classifications'' = Some (VList C2)" "length C2 = length C1"
    "\<forall>k. k \<noteq> ''Classifications'' \<longrightarrow> map_of b2 k = map_of b1 k"
    "\<forall>q \<in> set C2. \<exists>d. q = VDict d"
    using c1(5) by auto
  from link_value_loop [OF l3 c2(1,4)]
  have none: "pvs = [] \<or> C2 = []"
    and l3': "for_each (link ''(Origin Property Code OR ClassificationProperty Code)''
                ''Properties'' ''AllowedValues'') pvs b2 = Inr b3"
    by simp_all
  have p2: "map_of b2 ''Properties'' = Some (VList (map VDict prs))"
    using c2(3) c1(4) by (simp add: top_level_lookup)
  have r3: "list_all (linkable ''(Origin Property Code OR ClassificationProperty Code)''
              ''AllowedValues'' (map VDict prs)) pvs"
    using link_loop_Inr_iff [OF p2, of "''AllowedValues''"
        "''(Origin Property Code OR ClassificationProperty Code)''" pvs] l3' by auto
  from link_loop_then [OF l3' p2, of "''PropertyRelations''" "''(Origin Property)''"]
  obtain P3 where p3: "map_of b3 ''Properties'' = Some (VList P3)"
    "\<forall>x. linkable ''(Origin Property)'' ''PropertyRelations'' P3 x
       = linkable ''(Origin Property)'' ''PropertyRelations'' (map VDict prs) x"
    by auto
  have r4: "list_all (linkable ''(Origin Property)'' ''PropertyRelations'' (map VDict prs)) prels"
    using link_loop_Inr_iff [OF p3(1), of "''PropertyRelations''" "''(Origin Property)''" prels]
      l4 p3(2) by (auto simp: list_all_iff)
  have "pvs = [] \<or> cs = []" using none c2(2) c1(2) by auto
  with r1 r2 r3 r4 show ?R by simp
next
  assume r: ?R
  then have r1: "list_all (linkable ''(Origin Classification Code)'' ''ClassificationProperties''
              (map VDict cs)) cps"
    and r2: "list_all (linkable ''(Origin Classification Code)'' ''ClassificationRelations''
              (map VDict cs)) crs"
    and r3: "list_all (linkable ''(Origin Property Code OR ClassificationProperty Code)''
              ''AllowedValues'' (map VDict prs)) pvs"
    and r5: "pvs = [] \<or> cs = []"
    and r4: "list_all (linkable ''(Origin Property)'' ''PropertyRelations'' (map VDict prs)) prels"
    by simp_all
  from r1 link_loop_Inr_iff [OF top_level_lookup(1), of "''ClassificationProperties''"
        "''(Origin Classification Code)''" cps d cs ms prs]
  obtain b1 where l1: "for_each (link ''(Origin Classification Code)'' ''Classifications''
           ''ClassificationProperties'') cps (top_level d cs ms prs) = Inr b1"
    by auto
  from link_loop_then [OF l1 top_level_lookup(1), of "''ClassificationRelations''"
      "''(Origin Classification Code)''"]
  obtain C1 where c1: "map_of b1 ''Classifications'' = Some (VList C1)"
    "length C1 = length (map VDict cs)"
    "\<forall>x. linkable ''(Origin Classification Code)'' ''ClassificationRelations'' C1 x
       = linkable ''(Origin Classification Code)'' ''ClassificationRelations'' (map VDict cs) x"
    "\<forall>k. k \<noteq> ''Classifications'' \<longrightarrow> map_of b1 k = map_of (top_level d cs ms prs) k"
    by auto
  from r2 c1(3) have "list_all (linkable ''(Origin Classification Code)''
       ''ClassificationRelations'' C1) crs"
    by (simp add: list_all_iff)
  with link_loop_Inr_iff [OF c1(1), of "''ClassificationRelations''"
        "''(Origin Classification Code)''" crs]
  obtain b2 where l2: "for_each (link ''(Origin Classification Code)'' ''Classifications''
           ''ClassificationRelations'') crs b1 = Inr b2"
    by auto
  from link_loop_then [OF l2 c1(1), of "''ClassificationProperties''" "''(Origin Classification Code)''"]
  obtain C2 where c2: "map_of b2 ''Classifications'' = Some (VList C2)" "length C2 = length C1"
    "\<forall>k. k \<noteq> ''Classifications'' \<longrightarrow> map_of b2 k = map_of b1 k"
    by auto
  have p2: "map_of b2 ''Properties'' = Some (VList (map VDict prs))"
    using c2(3) c1(4) by (simp add: top_level_lookup)
  from r3 link_loop_Inr_iff [OF p2, of "''AllowedValues''"
        "''(Origin Property Code OR ClassificationProperty Code)''" pvs]
  obtain b3 where l3': "for_each (link ''(Origin Property Code OR ClassificationProperty Code)''
                ''Properties'' ''AllowedValues'') pvs b2 = Inr b3"
    by auto
  have l3: "for_each link_value pvs b2 = Inr b3"
  proof (cases "pvs = []")
    case True
    with l3' show ?thesis by simp
  next
    case False
    with r5 have "C2 = []" using c2(2) c1(2) by simp
    with c2(1) have "map_of b2 ''Classifications'' = Some (VList [])" by simp
    from link_value_loop_eq [OF this] l3' show ?thesis by simp
  qed
  from link_loop_then [OF l3' p2, of "''PropertyRelations''" "''(Origin Property)''"]
  obtain P3 where p3: "map_of b3 ''Properties'' = Some (VList P3)"
    "\<forall>x. linkable ''(Origin Property)'' ''PropertyRelations'' P3 x
       = linkable ''(Origin Property)'' ''PropertyRelations'' (map VDict prs) x"
    by auto
  from r4 p3(2) have "list_all (linkable ''(Origin Property)'' ''PropertyRelations'' P3) prels"
    by (simp add: list_all_iff)
  with link_loop_Inr_iff [OF p3(1), of "''PropertyRelations''" "''(Origin Property)''" prels]
  obtain b where l4: "for_each (link ''(Origin Property)'' ''Properties'' ''PropertyRelations'')
      prels b3 = Inr b"
    by auto
  from l1 l2 l3 l4 show ?L by blast
qed

lemma excel2bsdd_intro:
  assumes "snd (jsonify lit (domain excel) (Domain_template T)) = Inr (d # doms)"
    "snd (jsonify lit (classification excel) (Classification_template T)) = Inr cs"
    "snd (jsonify lit (material excel) (Material_template T)) = Inr ms"
    "snd (jsonify lit (property excel) (Property_template T)) = Inr prs"
    "snd (jsonify lit (classificationproperty excel) (ClassificationProperty_template T)) = Inr cps"
    "for_each (link ''(Origin Classification Code)'' ''Classifications'' ''ClassificationProperties'')
       cps (top_level d cs ms prs) = Inr b1"
    "snd (jsonify lit (classificationrelation excel) (ClassificationRelation_template T)) = Inr crs"
    "for_each (link ''(Origin Classification Code)'' ''Classifications'' ''ClassificationRelations'')
       crs b1 = Inr b2"
    "snd (jsonify lit (propertyvalue excel) (AllowedValue_template T)) = Inr pvs"
    "for_each link_value pvs b2 = Inr b3"
    "snd (jsonify lit (propertyrelation excel) (PropertyRelation_template T)) = Inr prels"
    "for_each (link ''(Origin Property)'' ''Properties'' ''PropertyRelations'') prels b3 = Inr b"
  shows "snd (excel2bsdd lit T excel) = Inr b"
  using assms unfolding excel2bsdd_def Let_def top_level_def
  by (simp add: snd_and_then lift_def index0_def)

lemma excel2bsdd_returns_iff:
  "(\<exists>b. snd (excel2bsdd lit T excel) = Inr b) \<longleftrightarrow>
     (\<exists>d doms cs ms prs cps crs pvs prels.
        snd (jsonify lit (domain excel) (Domain_template T)) = Inr (d # doms)
      \<and> snd (jsonify lit (classification excel) (Classification_template T)) = Inr cs
      \<and> snd (jsonify lit (material excel) (Material_template T)) = Inr ms
      \<and> snd (jsonify lit (property excel) (Property_template T)) = Inr prs
      \<and> snd (jsonify lit (classificationproperty excel) (ClassificationProperty_template T)) = Inr cps
      \<and> snd (jsonify lit (classificationrelation excel) (ClassificationRelation_template T)) = Inr crs
      \<and> snd (jsonify lit (propertyvalue excel) (AllowedValue_template T)) = Inr pvs
      \<and> snd (jsonify lit (propertyrelation excel) (PropertyRelation_template T)) = Inr prels
      \<and> list_all (linkable ''(Origin Classification Code)'' ''ClassificationProperties''
           (map VDict cs)) cps
      \<and> list_all (linkable ''(Origin Classification Code)'' ''ClassificationRelations''
           (map VDict cs)) crs
      \<and> list_all (linkable ''(Origin Property Code OR ClassificationProperty Code)''
           ''AllowedValues'' (map VDict prs)) pvs
      \<and> (pvs = [] \<or> cs = [])
      \<and> list_all (linkable ''(Origin Property)'' ''PropertyRelations'' (map VDict prs)) prels)"
  (is "?L \<longleftrightarrow> ?R")
proof
  assume ?L
  then obtain b where run: "snd (excel2bsdd lit T excel) = Inr b" ..
  show ?R
  proof (rule excel2bsdd_success [OF run], goal_cases)
    case (1 d doms cs ms prs cps b1 crs b2 pvs b3 prels)
    have "\<exists>b1 b2 b3 b.
        for_each (link ''(Origin Classification Code)'' ''Classifications''
          ''ClassificationProperties'') cps (top_level d cs ms prs) = Inr b1
      \<and> for_each (link ''(Origin Classification Code)'' ''Classifications''
          ''ClassificationRelations'') crs b1 = Inr b2
      \<and> for_each link_value pvs b2 = Inr b3
      \<and> for_each (link ''(Origin Property)'' ''Properties'' ''PropertyRelations'') prels b3 = Inr b"
      using 1(6,8,10,12) by blast
    then have r: "list_all (linkable ''(Origin Classification Code)'' ''ClassificationProperties''
           (map VDict cs)) cps
      \<and> list_all (linkable ''(Origin Classification Code)'' ''ClassificationRelations''
           (map VDict cs)) crs
      \<and> list_all (linkable ''(Origin Property Code OR ClassificationProperty Code)''
           ''AllowedValues'' (map VDict prs)) pvs
      \<and> (pvs = [] \<or> cs = [])
      \<and> list_all (linkable ''(Origin Property)'' ''PropertyRelations'' (map VDict prs)) prels"
      unfolding loops_return_iff .
    show ?case
      apply (rule exI [of _ d], rule exI [of _ doms], rule exI [of _ cs], rule exI [of _ ms],
          rule exI [of _ prs], rule exI [of _ cps], rule exI [of _ crs], rule exI [of _ pvs],
          rule exI [of _ prels])
      apply (rule conjI, fact 1(1))
      apply (rule conjI, fact 1(2))
      apply (rule conjI, fact 1(3))
      apply (rule conjI, fact 1(4))
      apply (rule conjI, fact 1(5))
      apply (rule conjI, fact 1(7))
      apply (rule conjI, fact 1(9))
      apply (rule conjI, fact 1(11))
      apply (fact r)
      done
  qed
next
  assume ?R
  then obtain d doms cs ms prs cps crs pvs prels where
    j: "snd (jsonify lit (domain excel) (Domain_template T)) = Inr (d # doms)"
      "snd (jsonify lit (classification excel) (Classification_template T)) = Inr cs"
      "snd (jsonify lit (material excel) (Material_template T)) = Inr ms"
      "snd (jsonify lit (property excel) (Property_template T)) = Inr prs"
      "snd (jsonify lit (classificationproperty excel) (ClassificationProperty_template T)) = Inr cps"
      "snd (jsonify lit (classificationrelation excel) (ClassificationRelation_template T)) = Inr crs"
      "snd (jsonify lit (propertyvalue excel) (AllowedValue_template T)) = Inr pvs"
      "snd (jsonify lit (propertyrelation excel) (PropertyRelation_template T)) = Inr prels"
    and r: "list_all (linkable ''(Origin Classification Code)'' ''ClassificationProperties''
           (map VDict cs)) cps
      \<and> list_all (linkable ''(Origin Classification Code)'' ''ClassificationRelations''
           (map VDict cs)) crs
      \<and> list_all (linkable ''(Origin Property Code OR ClassificationProperty Code)''
           ''AllowedValues'' (map VDict prs)) pvs
      \<and> (pvs = [] \<or> cs = [])
      \<and> list_all (linkable ''(Origin Property)'' ''PropertyRelations'' (map VDict prs)) prels"
    by blast
  from r have "\<exists>b1 b2 b3 b.
        for_each (link ''(Origin Classification Code)'' ''Classifications''
          ''ClassificationProperties'') cps (top_level d cs ms prs) = Inr b1
      \<and> for_each (link ''(Origin Classification Code)'' ''Classifications''
          ''ClassificationRelations'') crs b1 = Inr b2
      \<and> for_each link_value pvs b2 = Inr b3
      \<and> for_each (link ''(Origin Property)'' ''Properties'' ''PropertyRelations'') prels b3 = Inr b"
    unfolding loops_return_iff .
  then obtain b1 b2 b3 b where
    l: "for_each (link ''(Origin Classification Code)'' ''Classifications''
          ''ClassificationProperties'') cps (top_level d cs ms prs) = Inr b1"
      "for_each (link ''(Origin Classification Code)'' ''Classifications''
          ''ClassificationRelations'') crs b1 = Inr b2"
      "for_each link_value pvs b2 = Inr b3"
      "for_each (link ''(Origin Property)'' ''Properties'' ''PropertyRelations'') prels b3 = Inr b"
    by blast
  have "snd (excel2bsdd lit T excel) = Inr b"
    by (rule excel2bsdd_intro [OF j(1,2,3,4,5) l(1) j(6) l(2) j(7) l(3) j(8) l(4)])
  then show ?L ..
qed

text \<open>The part of the run that depends on the Domain sheet.\<close>

lemma excel2bsdd_domain:
  "snd (jsonify lit (domain excel) (Domain_template T)) = Inl e
    \<Longrightarrow> snd (excel2bsdd lit T excel) = Inl e"
  "snd (jsonify lit (domain excel) (Domain_template T)) = Inr (d # doms)
    \<Longrightarrow> snd (jsonify lit (domain excel') (Domain_template T)) = Inr (d # doms')
    \<Longrightarrow> classification excel' = classification excel \<Longrightarrow> material excel' = material excel
    \<Longrightarrow> property excel' = property excel
    \<Longrightarrow> classificationproperty excel' = classificationproperty excel
    \<Longrightarrow> classificationrelation excel' = classificationrelation excel
    \<Longrightarrow> propertyvalue excel' = propertyvalue excel
    \<Longrightarrow> propertyrelation excel' = propertyrelation excel
    \<Longrightarrow> snd (excel2bsdd lit T excel') = snd (excel2bsdd lit T excel)"
  unfolding excel2bsdd_def by (simp_all add: snd_and_then lift_def index0_def)

lemma jsonify_returns:
  "\<forall>row \<in> set df. \<forall>(c, x) \<in> set row. c \<in> set (keys p) \<longrightarrow> (\<exists>v. coerce lit x = Inr v)
    \<Longrightarrow> \<exists>js. snd (jsonify lit df p) = Inr js"
proof (cases "snd (jsonify lit df p)")
  case (Inl e)
  assume a: "\<forall>row \<in> set df. \<forall>(c, x) \<in> set row. c \<in> set (keys p) \<longrightarrow> (\<exists>v. coerce lit x = Inr v)"
  from jsonify_fails_only [OF Inl] obtain row c x where
    "row \<in> set df" "(c, x) \<in> set row" "c \<in> set (keys p)" "coerce lit x = Inl e"
    by blast
  with a show ?thesis by fastforce
next
  case (Inr js)
  then show ?thesis by blast
qed

lemma first_row_alone:
  assumes d: "domain excel = row # rows"
    and ok: "\<forall>r \<in> set rows. \<forall>(c, x) \<in> set r.
               c \<in> set (keys (Domain_template T)) \<longrightarrow> (\<exists>v. coerce lit x = Inr v)"
  shows "snd (excel2bsdd lit T excel) = snd (excel2bsdd lit T (excel\<lparr>domain := [row]\<rparr>))"
proof -
  from jsonify_returns [OF ok] obtain ds where
    ds: "snd (jsonify lit rows (Domain_template T)) = Inr ds" ..
  show ?thesis
  proof (cases "snd (fill lit row (Domain_template T))")
    case (Inl e)
    then have "snd (jsonify lit (domain excel) (Domain_template T)) = Inl e"
      "snd (jsonify lit (domain (excel\<lparr>domain := [row]\<rparr>)) (Domain_template T)) = Inl e"
      using d by (simp_all add: snd_and_then)
    then show ?thesis by (simp only: excel2bsdd_domain(1))
  next
    case (Inr new_part)
    then have a: "snd (jsonify lit (domain excel) (Domain_template T)) = Inr (new_part # ds)"
      and b: "snd (jsonify lit (domain (excel\<lparr>domain := [row]\<rparr>)) (Domain_template T))
               = Inr (new_part # [])"
      using d ds by (simp_all add: snd_and_then)
    show ?thesis
      by (rule excel2bsdd_domain(2) [OF b a]) simp_all
  qed
qed

text \<open>
  Claim C1. The pipeline returns exactly when the eight sheets are mapped, the Domain
  sheet has a row, and every child row can be linked: its origin value is the \<open>Code\<close>
  of a parent, and the first such parent holds a list under the field of the loop (for
  the property values, moreover, there is no row or no classification). When the
  pipeline returns, every classification of the output holds, under
  \<open>ClassificationProperties\<close> and under \<open>ClassificationRelations\<close>, the list its
  mapped row had there followed by the children linked to it, in the order of their
  rows, and every property holds its \<open>PropertyRelations\<close> likewise. A linked child is
  stored without its origin field, and the parent it is linked to is the first one, in
  row order, whose \<open>Code\<close> equals the child's origin value. In particular, a
  classification with code \<open>A1\<close> and two ClassificationProperty rows of origin \<open>A1\<close>
  give a classification whose \<open>ClassificationProperties\<close> has two elements, neither
  with an origin field; and a workbook with two classifications, two properties and
  rows of the three relation sheets, most of them children of the second parent, gives
  the document \<open>example_relations_tree\<close>.
\<close>

theorem children_linked_to_parents:
  "((\<exists>b. snd (excel2bsdd literal_eval T excel) = Inr b) \<longleftrightarrow>
      (\<exists>d doms cs ms prs cps crs pvs prels.
         snd (jsonify literal_eval (domain excel) (Domain_template T)) = Inr (d # doms)
       \<and> snd (jsonify literal_eval (classification excel) (Classification_template T)) = Inr cs
       \<and> snd (jsonify literal_eval (material excel) (Material_template T)) = Inr ms
       \<and> snd (jsonify literal_eval (property excel) (Property_template T)) = Inr prs
       \<and> snd (jsonify literal_eval (classificationproperty excel)
                 (ClassificationProperty_template T)) = Inr cps
       \<and> snd (jsonify literal_eval (classificationrelation excel)
                 (ClassificationRelation_template T)) = Inr crs
       \<and> snd (jsonify literal_eval (propertyvalue excel) (AllowedValue_template T)) = Inr pvs
       \<and> snd (jsonify literal_eval (propertyrelation excel)
                 (PropertyRelation_template T)) = Inr prels
       \<and> list_all (linkable ''(Origin Classification Code)'' ''ClassificationProperties''
            (map VDict cs)) cps
       \<and> list_all (linkable ''(Origin Classification Code)'' ''ClassificationRelations''
            (map VDict cs)) crs
       \<and> list_all (linkable ''(Origin Property Code OR ClassificationProperty Code)''
            ''AllowedValues'' (map VDict prs)) pvs
       \<and> (pvs = [] \<or> cs = [])
       \<and> list_all (linkable ''(Origin Property)'' ''PropertyRelations'' (map VDict prs)) prels))
   \<and> (snd (excel2bsdd literal_eval T excel) = Inr bsdd_data \<longrightarrow>
      (\<exists>cs prs cps crs prels clss props.
         snd (jsonify literal_eval (classification excel) (Classification_template T)) = Inr cs
       \<and> snd (jsonify literal_eval (property excel) (Property_template T)) = Inr prs
       \<and> snd (jsonify literal_eval (classificationproperty excel)
                 (ClassificationProperty_template T)) = Inr cps
       \<and> snd (jsonify literal_eval (classificationrelation excel)
                 (ClassificationRelation_template T)) = Inr crs
       \<and> snd (jsonify literal_eval (propertyrelation excel)
                 (PropertyRelation_template T)) = Inr prels
       \<and> map_of bsdd_data ''Classifications'' = Some (VList clss) \<and> length clss = length cs
       \<and> map_of bsdd_data ''Properties'' = Some (VList props) \<and> length props = length prs
       \<and> (\<forall>i<length cs.
             child_list ''ClassificationProperties'' (clss ! i)
               = child_list ''ClassificationProperties'' (VDict (cs ! i))
                 @ linked_children ''(Origin Classification Code)'' cs i cps
           \<and> child_list ''ClassificationRelations'' (clss ! i)
               = child_list ''ClassificationRelations'' (VDict (cs ! i))
                 @ linked_children ''(Origin Classification Code)'' cs i crs)
       \<and> (\<forall>i<length prs.
             child_list ''PropertyRelations'' (props ! i)
               = child_list ''PropertyRelations'' (VDict (prs ! i))
                 @ linked_children ''(Origin Property)'' prs i prels)))
   \<and> (\<forall>x \<in> set (linked_children origin parents i children).
         \<exists>child \<in> set children. linked_to origin (map VDict parents) i child
           \<and> x = VDict (dict_pop origin child) \<and> origin \<notin> set (keys (dict_pop origin child)))
   \<and> (linked_to origin ps i child \<longrightarrow>
         (\<exists>related. map_of child origin = Some related \<and> i < length ps
            \<and> code_is related (ps ! i) \<and> (\<forall>j<i. \<not> code_is related (ps ! j))))
   \<and> snd (excel2bsdd literal_eval_lists spec_templates example_A1) =
       Inr [(''DomainName'', VStr ''Demo''),
            (''Classifications'',
             VList [VDict [(''Code'', VStr ''A1''), (''Name'', VStr ''Wall''),
                           (''ClassificationProperties'',
                            VList [VDict [(''PropertyCode'', VStr ''height'')],
                                   VDict [(''PropertyCode'', VStr ''width'')]]),
                           (''ClassificationRelations'', VList []),
                           (''AllowedValues'', VList [])]]),
            (''Materials'', VList []), (''Properties'', VList [])]
   \<and> snd (excel2bsdd literal_eval_lists spec_templates example_relations)
       = Inr example_relations_tree"
proof (intro conjI impI)
  show "(\<exists>b. snd (excel2bsdd literal_eval T excel) = Inr b) \<longleftrightarrow>
      (\<exists>d doms cs ms prs cps crs pvs prels.
         snd (jsonify literal_eval (domain excel) (Domain_template T)) = Inr (d # doms)
       \<and> snd (jsonify literal_eval (classification excel) (Classification_template T)) = Inr cs
       \<and> snd (jsonify literal_eval (material excel) (Material_template T)) = Inr ms
       \<and> snd (jsonify literal_eval (property excel) (Property_template T)) = Inr prs
       \<and> snd (jsonify literal_eval (classificationproperty excel)
                 (ClassificationProperty_template T)) = Inr cps
       \<and> snd (jsonify literal_eval (classificationrelation excel)
                 (ClassificationRelation_template T)) = Inr crs
       \<and> snd (jsonify literal_eval (propertyvalue excel) (AllowedValue_template T)) = Inr pvs
       \<and> snd (jsonify literal_eval (propertyrelation excel)
                 (PropertyRelation_template T)) = Inr prels
       \<and> list_all (linkable ''(Origin Classification Code)'' ''ClassificationProperties''
            (map VDict cs)) cps
       \<and> list_all (linkable ''(Origin Classification Code)'' ''ClassificationRelations''
            (map VDict cs)) crs
       \<and> list_all (linkable ''(Origin Property Code OR ClassificationProperty Code)''
            ''AllowedValues'' (map VDict prs)) pvs
       \<and> (pvs = [] \<or> cs = [])
       \<and> list_all (linkable ''(Origin Property)'' ''PropertyRelations'' (map VDict prs)) prels)"
    by (rule excel2bsdd_returns_iff)
next
  assume run: "snd (excel2bsdd literal_eval T excel) = Inr bsdd_data"
  show "\<exists>cs prs cps crs prels clss props.
         snd (jsonify literal_eval (classification excel) (Classification_template T)) = Inr cs
       \<and> snd (jsonify literal_eval (property excel) (Property_template T)) = Inr prs
       \<and> snd (jsonify literal_eval (classificationproperty excel)
                 (ClassificationProperty_template T)) = Inr cps
       \<and> snd (jsonify literal_eval (classificationrelation excel)
                 (ClassificationRelation_template T)) = Inr crs
       \<and> snd (jsonify literal_eval (propertyrelation excel)
                 (PropertyRelation_template T)) = Inr prels
       \<and> map_of bsdd_data ''Classifications'' = Some (VList clss) \<and> length clss = length cs
       \<and> map_of bsdd_data ''Properties'' = Some (VList props) \<and> length props = length prs
       \<and> (\<forall>i<length cs.
             child_list ''ClassificationProperties'' (clss ! i)
               = child_list ''ClassificationProperties'' (VDict (cs ! i))
                 @ linked_children ''(Origin Classification Code)'' cs i cps
           \<and> child_list ''ClassificationRelations'' (clss ! i)
               = child_list ''ClassificationRelations'' (VDict (cs ! i))
                 @ linked_children ''(Origin Classification Code)'' cs i crs)
       \<and> (\<forall>i<length prs.
             child_list ''PropertyRelations'' (props ! i)
               = child_list ''PropertyRelations'' (VDict (prs ! i))
                 @ linked_children ''(Origin Property)'' prs i prels)"
  proof (rule excel2bsdd_tree [OF run], goal_cases)
    case (1 d doms cs ms prs cps crs pvs prels clss props)
    show ?case
      apply (rule exI [of _ cs], rule exI [of _ prs], rule exI [of _ cps], rule exI [of _ crs],
          rule exI [of _ prels], rule exI [of _ clss], rule exI [of _ props])
      apply (intro conjI allI impI)
      apply (fact 1 | (rule 1(15) [rule_format] 1(16) [rule_format] 1(18) [rule_format], assumption))+
      done
  qed
next
  show "\<forall>x \<in> set (linked_children origin parents i children).
         \<exists>child \<in> set children. linked_to origin (map VDict parents) i child
           \<and> x = VDict (dict_pop origin child) \<and> origin \<notin> set (keys (dict_pop origin child))"
    by (auto simp: linked_children_def dict_pop_keys)
next
  assume "linked_to origin ps i child"
  then show "\<exists>related. map_of child origin = Some related \<and> i < length ps
            \<and> code_is related (ps ! i) \<and> (\<forall>j<i. \<not> code_is related (ps ! j))"
    by (rule linked_to_first)
next
  show "snd (excel2bsdd literal_eval_lists spec_templates example_A1) =
       Inr [(''DomainName'', VStr ''Demo''),
            (''Classifications'',
             VList [VDict [(''Code'', VStr ''A1''), (''Name'', VStr ''Wall''),
                           (''ClassificationProperties'',
                            VList [VDict [(''PropertyCode'', VStr ''height'')],
                                   VDict [(''PropertyCode'', VStr ''width'')]]),
                           (''ClassificationRelations'', VList []),
                           (''AllowedValues'', VList [])]]),
            (''Materials'', VList []), (''Properties'', VList [])]"
    by (simp add: link_simps run_simps example_A1_def)
next
  show "snd (excel2bsdd literal_eval_lists spec_templates example_relations)
       = Inr example_relations_tree"
    by (simp add: link_simps run_simps example_relations_def example_relations_tree_def)
qed

theorem children_linked_to_parents_witness:
  "(\<exists>b. snd (excel2bsdd literal_eval_lists spec_templates example_relations) = Inr b)
   \<and> snd (excel2bsdd literal_eval_lists spec_templates example_relations)
       = Inr example_relations_tree
   \<and> list_all (linkable ''(Origin Classification Code)'' ''ClassificationRelations''
        [VDict [(''Code'', VStr ''A1''), (''Name'', VStr ''Wall''),
                (''ClassificationProperties'', VList []),
                (''ClassificationRelations'', VList []), (''AllowedValues'', VList [])],
         VDict [(''Code'', VStr ''B2''), (''Name'', VStr ''Slab''),
                (''ClassificationProperties'', VList []),
                (''ClassificationRelations'', VList []), (''AllowedValues'', VList [])]])
        [[(''(Origin Classification Code)'', VStr ''B2''),
          (''RelatedClassificationName'', VStr ''Floor'')]]
   \<and> linked_to ''(Origin Classification Code)''
        [VDict [(''Code'', VStr ''A1'')], VDict [(''Code'', VStr ''B2'')]] 1
        [(''(Origin Classification Code)'', VStr ''B2''), (''PropertyCode'', VStr ''P2'')]
   \<and> \<not> code_is (VStr ''B2'') (VDict [(''Code'', VStr ''A1'')])
   \<and> code_is (VStr ''B2'') (VDict [(''Code'', VStr ''B2'')])
   \<and> linked_children ''(Origin Classification Code)''
        [[(''Code'', VStr ''A1'')], [(''Code'', VStr ''B2'')]] 1
        [[(''(Origin Classification Code)'', VStr ''B2''), (''PropertyCode'', VStr ''P2'')],
         [(''(Origin Classification Code)'', VStr ''A1''), (''PropertyCode'', VStr ''P1'')],
         [(''(Origin Classification Code)'', VStr ''B2''), (''PropertyCode'', VStr ''P1'')]]
       = [VDict [(''PropertyCode'', VStr ''P2'')], VDict [(''PropertyCode'', VStr ''P1'')]]
   \<and> child_list ''ClassificationRelations''
        (VDict [(''Code'', VStr ''B2''), (''Name'', VStr ''Slab''),
                (''ClassificationProperties'',
                 VList [VDict [(''PropertyCode'', VStr ''P2'')],
                        VDict [(''PropertyCode'', VStr ''P1'')]]),
                (''ClassificationRelations'',
                 VList [VDict [(''RelatedClassificationName'', VStr ''Floor'')]]),
                (''AllowedValues'', VList [])])
       = [VDict [(''RelatedClassificationName'', VStr ''Floor'')]]
   \<and> child_list ''PropertyRelations''
        (VDict [(''Code'', VStr ''P2''), (''Name'', VStr ''Height''),
                (''AllowedValues'', VList []),
                (''PropertyRelations'', VList [VDict [(''RelatedPropertyName'', VStr ''Depth'')]])])
       = [VDict [(''RelatedPropertyName'', VStr ''Depth'')]]"
  using children_linked_to_parents
    [of literal_eval_lists spec_templates example_relations example_relations_tree
      "''(Origin Classification Code)''" "[[(''Code'', VStr ''A1'')], [(''Code'', VStr ''B2'')]]" 1
      "[[(''(Origin Classification Code)'', VStr ''B2''), (''PropertyCode'', VStr ''P2'')],
        [(''(Origin Classification Code)'', VStr ''A1''), (''PropertyCode'', VStr ''P1'')],
        [(''(Origin Classification Code)'', VStr ''B2''), (''PropertyCode'', VStr ''P1'')]]"
      "[VDict [(''Code'', VStr ''A1'')], VDict [(''Code'', VStr ''B2'')]]"
      "[(''(Origin Classification Code)'', VStr ''B2''), (''PropertyCode'', VStr ''P2'')]"]
  by (simp add: link_simps run_simps example_relations_def example_relations_tree_def
      linked_to_def linked_children_def code_is_def linkable_def child_list_def)

lemma excel2bsdd_stages:
  assumes run: "snd (excel2bsdd lit T excel) = Inr b"
  obtains d cs ms prs cps crs pvs prels b1 b2 b3 C1 P3 where
    "snd (jsonify lit (classification excel) (Classification_template T)) = Inr cs"
    "snd (jsonify lit (property excel) (Property_template T)) = Inr prs"
    "snd (jsonify lit (classificationproperty excel) (ClassificationProperty_template T)) = Inr cps"
    "snd (jsonify lit (classificationrelation excel) (ClassificationRelation_template T)) = Inr crs"
    "snd (jsonify lit (propertyvalue excel) (AllowedValue_template T)) = Inr pvs"
    "snd (jsonify lit (propertyrelation excel) (PropertyRelation_template T)) = Inr prels"
    "for_each (link ''(Origin Classification Code)'' ''Classifications'' ''ClassificationProperties'')
       cps (top_level d cs ms prs) = Inr b1"
    "for_each (link ''(Origin Classification Code)'' ''Classifications'' ''ClassificationRelations'')
       crs b1 = Inr b2"
    "for_each (link ''(Origin Property Code OR ClassificationProperty Code)'' ''Properties''
       ''AllowedValues'') pvs b2 = Inr b3"
    "for_each (link ''(Origin Property)'' ''Properties'' ''PropertyRelations'') prels b3 = Inr b"
    "map_of b1 ''Classifications'' = Some (VList C1)"
    "map (\<lambda>item. getitem item ''Code'') C1 = map (\<lambda>item. getitem item ''Code'') (map VDict cs)"
    "map_of b2 ''Properties'' = Some (VList (map VDict prs))"
    "map_of b3 ''Properties'' = Some (VList P3)"
    "map (\<lambda>item. getitem item ''Code'') P3 = map (\<lambda>item. getitem item ''Code'') (map VDict prs)"
proof -
  from excel2bsdd_success [OF run] obtain d doms cs ms prs cps b1 crs b2 pvs b3 prels where
    j: "snd (jsonify lit (classification excel) (Classification_template T)) = Inr cs"
      "snd (jsonify lit (property excel) (Property_template T)) = Inr prs"
      "snd (jsonify lit (classificationproperty excel) (ClassificationProperty_template T)) = Inr cps"
      "snd (jsonify lit (classificationrelation excel) (ClassificationRelation_template T)) = Inr crs"
      "snd (jsonify lit (propertyvalue excel) (AllowedValue_template T)) = Inr pvs"
      "snd (jsonify lit (propertyrelation excel) (PropertyRelation_template T)) = Inr prels"
    and l1: "for_each (link ''(Origin Classification Code)'' ''Classifications''
               ''ClassificationProperties'') cps (top_level d cs ms prs) = Inr b1"
    and l2: "for_each (link ''(Origin Classification Code)'' ''Classifications''
               ''ClassificationRelations'') crs b1 = Inr b2"
    and l3: "for_each link_value pvs b2 = Inr b3"
    and l4: "for_each (link ''(Origin Property)'' ''Properties'' ''PropertyRelations'') prels b3 = Inr b"
    by metis
  from link_loop_frame [OF l1 top_level_lookup(1)] obtain C1 where
    c1: "map_of b1 ''Classifications'' = Some (VList C1)" "length C1 = length (map VDict cs)"
      "map (\<lambda>item. getitem item ''Code'') C1 = map (\<lambda>item. getitem item ''Code'') (map VDict cs)"
      "\<forall>i<length (map VDict cs). \<forall>d. map VDict cs ! i = VDict d
          \<longrightarrow> (\<exists>d'. C1 ! i = VDict d' \<and> keys d' = keys d)"
      "\<forall>k. k \<noteq> ''Classifications'' \<longrightarrow> map_of b1 k = map_of (top_level d cs ms prs) k"
    by auto
  from link_loop_frame [OF l2 c1(1)] obtain C2 where
    c2: "map_of b2 ''Classifications'' = Some (VList C2)" "length C2 = length C1"
      "\<forall>i<length C1. \<forall>d. C1 ! i = VDict d \<longrightarrow> (\<exists>d'. C2 ! i = VDict d' \<and> keys d' = keys d)"
      "\<forall>k. k \<noteq> ''Classifications'' \<longrightarrow> map_of b2 k = map_of b1 k"
    by auto
  have dicts2: "\<forall>x \<in> set C2. \<exists>d. x = VDict d"
  proof
    fix x assume "x \<in> set C2"
    then obtain i where i: "i < length C2" "x = C2 ! i" by (auto simp: in_set_conv_nth)
    then have "i < length cs" using c2(2) c1(2) by simp
    then have "map VDict cs ! i = VDict (cs ! i)" by simp
    with c1(4) \<open>i < length cs\<close> obtain d' where "C1 ! i = VDict d'" by auto
    with c2(3) i(1) c2(2) obtain d'' where "C2 ! i = VDict d''" by auto
    with i(2) show "\<exists>d. x = VDict d" by simp
  qed
  from link_value_loop [OF l3 c2(1) dicts2]
  have l3': "for_each (link ''(Origin Property Code OR ClassificationProperty Code)''
                ''Properties'' ''AllowedValues'') pvs b2 = Inr b3"
    by simp
  have p2: "map_of b2 ''Properties'' = Some (VList (map VDict prs))"
    using c2(4) c1(5) by (simp add: top_level_lookup)
  from link_loop_frame [OF l3' p2] obtain P3 where
    p3: "map_of b3 ''Properties'' = Some (VList P3)"
      "map (\<lambda>item. getitem item ''Code'') P3 = map (\<lambda>item. getitem item ''Code'') (map VDict prs)"
    by auto
  show thesis
    by (rule that [OF j l1 l2 l3' l4 c1(1) c1(3) p2 p3])
qed

lemma unmatched_of_none:
  "\<forall>p \<in> set cs. \<not> code_is related (VDict p) \<Longrightarrow> \<forall>p \<in> set (map VDict cs). \<not> code_is related p"
  by simp

lemma run_unmatched:
  assumes none_c: "snd (jsonify lit (classification excel) (Classification_template T)) = Inr cs
      \<and> (\<forall>p \<in> set cs. \<not> code_is related (VDict p))
      \<and> ((\<exists>cps. snd (jsonify lit (classificationproperty excel)
                       (ClassificationProperty_template T)) = Inr cps \<and> child \<in> set cps)
         \<or> (\<exists>crs. snd (jsonify lit (classificationrelation excel)
                       (ClassificationRelation_template T)) = Inr crs \<and> child \<in> set crs))
      \<and> map_of child ''(Origin Classification Code)'' = Some related
    \<or> snd (jsonify lit (property excel) (Property_template T)) = Inr prs
      \<and> (\<forall>p \<in> set prs. \<not> code_is related (VDict p))
      \<and> ((\<exists>pvs. snd (jsonify lit (propertyvalue excel) (AllowedValue_template T)) = Inr pvs
              \<and> child \<in> set pvs
              \<and> map_of child ''(Origin Property Code OR ClassificationProperty Code)'' = Some related)
         \<or> (\<exists>prels. snd (jsonify lit (propertyrelation excel) (PropertyRelation_template T))
                = Inr prels \<and> child \<in> set prels
              \<and> map_of child ''(Origin Property)'' = Some related))"
  shows "\<exists>e. snd (excel2bsdd lit T excel) = Inl e"
proof (cases "snd (excel2bsdd lit T excel)")
  case (Inl e)
  then show ?thesis by simp
next
  case (Inr b)
  have False
  proof (rule excel2bsdd_stages [OF Inr], goal_cases)
    case s: (1 d cs' ms prs' cps crs pvs prels b1 b2 b3 C1 P3)
    show ?case

    using none_c
  proof (elim disjE conjE exE)
    assume a: "snd (jsonify lit (classification excel) (Classification_template T)) = Inr cs"
      "\<forall>p \<in> set cs. \<not> code_is related (VDict p)"
      "map_of child ''(Origin Classification Code)'' = Some related"
    fix cps' assume b: "snd (jsonify lit (classificationproperty excel)
                       (ClassificationProperty_template T)) = Inr cps'" "child \<in> set cps'"
    have n: "\<forall>p \<in> set (map VDict cs'). \<not> code_is related p" using a(1,2) s(1) by simp
    have "child \<in> set cps" using b s(3) by simp
    from link_loop_unmatched [OF top_level_lookup(1) _ this a(3) n,
        of "''ClassificationProperties''" d ms prs'] s(7)
    show False by simp
  next
    assume a: "snd (jsonify lit (classification excel) (Classification_template T)) = Inr cs"
      "\<forall>p \<in> set cs. \<not> code_is related (VDict p)"
      "map_of child ''(Origin Classification Code)'' = Some related"
    fix crs' assume b: "snd (jsonify lit (classificationrelation excel)
                       (ClassificationRelation_template T)) = Inr crs'" "child \<in> set crs'"
    have "\<forall>p \<in> set (map VDict cs'). \<not> code_is related p" using a(1,2) s(1) by simp
    with code_is_codes [OF s(12)] have n: "\<forall>p \<in> set C1. \<not> code_is related p" by simp
    have "child \<in> set crs" using b s(4) by simp
    from link_loop_unmatched [OF s(11) _ this a(3) n, of "''ClassificationRelations''"] s(8)
    show False by simp
  next
    assume a: "snd (jsonify lit (property excel) (Property_template T)) = Inr prs"
      "\<forall>p \<in> set prs. \<not> code_is related (VDict p)"
    fix pvs' assume b: "snd (jsonify lit (propertyvalue excel) (AllowedValue_template T)) = Inr pvs'"
      "child \<in> set pvs'"
      "map_of child ''(Origin Property Code OR ClassificationProperty Code)'' = Some related"
    have n: "\<forall>p \<in> set (map VDict prs'). \<not> code_is related p" using a(1,2) s(2) by simp
    have "child \<in> set pvs" using b s(5) by simp
    from link_loop_unmatched [OF s(13) _ this b(3) n, of "''AllowedValues''"] s(9)
    show False by simp
  next
    assume a: "snd (jsonify lit (property excel) (Property_template T)) = Inr prs"
      "\<forall>p \<in> set prs. \<not> code_is related (VDict p)"
    fix prels' assume b: "snd (jsonify lit (propertyrelation excel) (PropertyRelation_template T))
                = Inr prels'" "child \<in> set prels'"
      "map_of child ''(Origin Property)'' = Some related"
    have "\<forall>p \<in> set (map VDict prs'). \<not> code_is related p" using a(1,2) s(2) by simp
    with code_is_codes [OF s(15)] have n: "\<forall>p \<in> set P3. \<not> code_is related p" by simp
    have "child \<in> set prels" using b s(6) by simp
    from link_loop_unmatched [OF s(14) _ this b(3) n, of "''PropertyRelations''"] s(10)
    show False by simp
  qed
  qed
  then show ?thesis ..
qed

lemma main_fails:
  "load_excel path = Inr excel \<Longrightarrow> snd (excel2bsdd lit T excel) = Inl e
    \<Longrightarrow> snd (main load_excel lit T (path # json_path # flag # rest)) = Inl e"
  by (simp add: main_def argv_at_def lift_def snd_and_then)

text \<open>
  Claim C2, as the code has it. The lookup of a parent compares \<open>Code\<close> with the
  child's origin value by \<open>==\<close> and takes the first parent that matches, whether or
  not others match too. When no parent matches, the lookup raises (StopIteration once
  every parent was compared), and a child row of any of the four child sheets whose
  origin value matches no parent makes the whole run fail; a failed run returns an
  error and nothing to write.
\<close>

theorem unmatched_child_aborts:
  "(first_match ps related = Inr i \<longrightarrow>
      i < length ps \<and> code_is related (ps ! i) \<and> (\<forall>j<i. \<not> code_is related (ps ! j)))
   \<and> (first_match ps related = Inl StopIteration \<longrightarrow> (\<forall>p \<in> set ps. \<not> code_is related p))
   \<and> ((\<forall>p \<in> set ps. \<not> code_is related p) \<longrightarrow> (\<exists>e. first_match ps related = Inl e))
   \<and> (snd (jsonify literal_eval (classification excel) (Classification_template T)) = Inr cs
        \<and> (\<forall>p \<in> set cs. \<not> code_is related (VDict p))
        \<and> snd (jsonify literal_eval (classificationproperty excel)
                  (ClassificationProperty_template T)) = Inr children
        \<and> child \<in> set children
        \<and> map_of child ''(Origin Classification Code)'' = Some related
      \<longrightarrow> (\<exists>e. snd (excel2bsdd literal_eval T excel) = Inl e))
   \<and> (snd (jsonify literal_eval (classification excel) (Classification_template T)) = Inr cs
        \<and> (\<forall>p \<in> set cs. \<not> code_is related (VDict p))
        \<and> snd (jsonify literal_eval (classificationrelation excel)
                  (ClassificationRelation_template T)) = Inr children
        \<and> child \<in> set children
        \<and> map_of child ''(Origin Classification Code)'' = Some related
      \<longrightarrow> (\<exists>e. snd (excel2bsdd literal_eval T excel) = Inl e))
   \<and> (snd (jsonify literal_eval (property excel) (Property_template T)) = Inr prs
        \<and> (\<forall>p \<in> set prs. \<not> code_is related (VDict p))
        \<and> snd (jsonify literal_eval (propertyvalue excel) (AllowedValue_template T)) = Inr children
        \<and> child \<in> set children
        \<and> map_of child ''(Origin Property Code OR ClassificationProperty Code)'' = Some related
      \<longrightarrow> (\<exists>e. snd (excel2bsdd literal_eval T excel) = Inl e))
   \<and> (snd (jsonify literal_eval (property excel) (Property_template T)) = Inr prs
        \<and> (\<forall>p \<in> set prs. \<not> code_is related (VDict p))
        \<and> snd (jsonify literal_eval (propertyrelation excel) (PropertyRelation_template T))
            = Inr children
        \<and> child \<in> set children
        \<and> map_of child ''(Origin Property)'' = Some related
      \<longrightarrow> (\<exists>e. snd (excel2bsdd literal_eval T excel) = Inl e))
   \<and> (load_excel path = Inr excel \<and> snd (excel2bsdd literal_eval T excel) = Inl e
      \<longrightarrow> snd (main load_excel literal_eval T (path # json_path # flag # rest)) = Inl e)"
proof (intro conjI impI)
  assume "first_match ps related = Inr i"
  then show "i < length ps" "code_is related (ps ! i)" "\<forall>j<i. \<not> code_is related (ps ! j)"
    by (simp_all add: first_match_bound first_match_found)
next
  assume "first_match ps related = Inl StopIteration"
  then show "\<forall>p \<in> set ps. \<not> code_is related p" by (rule first_match_stop)
next
  assume "\<forall>p \<in> set ps. \<not> code_is related p"
  then show "\<exists>e. first_match ps related = Inl e" by (rule first_match_none)
next
  assume "snd (jsonify literal_eval (classification excel) (Classification_template T)) = Inr cs
        \<and> (\<forall>p \<in> set cs. \<not> code_is related (VDict p))
        \<and> snd (jsonify literal_eval (classificationproperty excel)
                  (ClassificationProperty_template T)) = Inr children
        \<and> child \<in> set children
        \<and> map_of child ''(Origin Classification Code)'' = Some related"
  then show "\<exists>e. snd (excel2bsdd literal_eval T excel) = Inl e"
    by (intro run_unmatched [of literal_eval excel T cs related child prs]) blast
next
  assume "snd (jsonify literal_eval (classification excel) (Classification_template T)) = Inr cs
        \<and> (\<forall>p \<in> set cs. \<not> code_is related (VDict p))
        \<and> snd (jsonify literal_eval (classificationrelation excel)
                  (ClassificationRelation_template T)) = Inr children
        \<and> child \<in> set children
        \<and> map_of child ''(Origin Classification Code)'' = Some related"
  then show "\<exists>e. snd (excel2bsdd literal_eval T excel) = Inl e"
    by (intro run_unmatched [of literal_eval excel T cs related child prs]) blast
next
  assume "snd (jsonify literal_eval (property excel) (Property_template T)) = Inr prs
        \<and> (\<forall>p \<in> set prs. \<not> code_is related (VDict p))
        \<and> snd (jsonify literal_eval (propertyvalue excel) (AllowedValue_template T)) = Inr children
        \<and> child \<in> set children
        \<and> map_of child ''(Origin Property Code OR ClassificationProperty Code)'' = Some related"
  then show "\<exists>e. snd (excel2bsdd literal_eval T excel) = Inl e"
    by (intro run_unmatched [of literal_eval excel T cs related child prs]) blast
next
  assume "snd (jsonify literal_eval (property excel) (Property_template T)) = Inr prs
        \<and> (\<forall>p \<in> set prs. \<not> code_is related (VDict p))
        \<and> snd (jsonify literal_eval (propertyrelation excel) (PropertyRelation_template T))
            = Inr children
        \<and> child \<in> set children
        \<and> map_of child ''(Origin Property)'' = Some related"
  then show "\<exists>e. snd (excel2bsdd literal_eval T excel) = Inl e"
    by (intro run_unmatched [of literal_eval excel T cs related child prs]) blast
next
  assume "load_excel path = Inr excel \<and> snd (excel2bsdd literal_eval T excel) = Inl e"
  then show "snd (main load_excel literal_eval T (path # json_path # flag # rest)) = Inl e"
    by (simp add: main_fails)
qed

theorem unmatched_child_aborts_witness:
  "snd (jsonify literal_eval_lists (classification example_unmatched)
          (Classification_template spec_templates))
     = Inr [[(''Code'', VStr ''A1''), (''Name'', VStr ''Wall''),
             (''ClassificationProperties'', VList []), (''ClassificationRelations'', VList []),
             (''AllowedValues'', VList [])]]
   \<and> \<not> code_is (VStr ''B7'') (VDict [(''Code'', VStr ''A1''), (''Name'', VStr ''Wall''),
             (''ClassificationProperties'', VList []), (''ClassificationRelations'', VList []),
             (''AllowedValues'', VList [])])
   \<and> snd (excel2bsdd literal_eval_lists spec_templates example_unmatched) = Inl StopIteration
   \<and> snd (main (\<lambda>path. Inr example_unmatched) literal_eval_lists spec_templates
            [''in.xlsx'', ''out.json'', ''1'']) = Inl StopIteration
   \<and> first_match [VDict [(''Code'', VStr ''A1'')]] (VStr ''B7'') = Inl StopIteration
   \<and> first_match [VDict [(''Code'', VStr ''A0'')], VDict [(''Code'', VStr ''A1'')],
                   VDict [(''Code'', VStr ''A1'')]] (VStr ''A1'') = Inr 1"
  using unmatched_child_aborts
    [where ps = "[VDict [(''Code'', VStr ''A1'')]]" and related = "VStr ''B7''" and i = 0
      and literal_eval = literal_eval_lists and T = spec_templates and excel = example_unmatched
      and cs = "[[(''Code'', VStr ''A1''), (''Name'', VStr ''Wall''),
             (''ClassificationProperties'', VList []), (''ClassificationRelations'', VList []),
             (''AllowedValues'', VList [])]]"
      and children = "[[(''(Origin Classification Code)'', VStr ''B7''),
                        (''PropertyCode'', VStr ''height'')]]"
      and child = "[(''(Origin Classification Code)'', VStr ''B7''),
                    (''PropertyCode'', VStr ''height'')]"
      and prs = "[]" and load_excel = "\<lambda>path. Inr example_unmatched" and path = "''in.xlsx''"
      and e = StopIteration and json_path = "''out.json''" and flag = "''1''" and rest = "[]"]
    unmatched_child_aborts
    [where ps = "[VDict [(''Code'', VStr ''A0'')], VDict [(''Code'', VStr ''A1'')],
                   VDict [(''Code'', VStr ''A1'')]]" and related = "VStr ''A1''" and i = 1
      and literal_eval = literal_eval_lists and T = spec_templates and excel = example_unmatched
      and cs = "[]" and children = "[]" and child = "[]"
      and prs = "[]" and load_excel = "\<lambda>path. Inr example_unmatched" and path = "''in.xlsx''"
      and e = StopIteration and json_path = "''out.json''" and flag = "''1''" and rest = "[]"]
  by (simp add: link_simps run_simps example_unmatched_def code_is_def)

text \<open>
  The claim fails where it makes several matching parents fatal: with two classifications
  of code \<open>A1\<close> the run returns, and the child is under the first of them.
\<close>

theorem duplicate_code_counterexample:
  "length (filter (code_is (VStr ''A1''))
      [VDict [(''Code'', VStr ''A1''), (''Name'', VStr ''Wall'')],
       VDict [(''Code'', VStr ''A1''), (''Name'', VStr ''Slab'')]]) = 2
   \<and> snd (excel2bsdd literal_eval_lists spec_templates example_duplicate) =
       Inr [(''DomainName'', VStr ''Demo''),
            (''Classifications'',
             VList [VDict [(''Code'', VStr ''A1''), (''Name'', VStr ''Wall''),
                           (''ClassificationProperties'',
                            VList [VDict [(''PropertyCode'', VStr ''height'')]]),
                           (''ClassificationRelations'', VList []),
                           (''AllowedValues'', VList [])],
                    VDict [(''Code'', VStr ''A1''), (''Name'', VStr ''Slab''),
                           (''ClassificationProperties'', VList []),
                           (''ClassificationRelations'', VList []),
                           (''AllowedValues'', VList [])]]),
            (''Materials'', VList []), (''Properties'', VList [])]"
  by (simp add: link_simps run_simps example_duplicate_def code_is_def)

lemma values_need_no_classification:
  assumes "classification excel \<noteq> []" "propertyvalue excel \<noteq> []"
  shows "\<exists>e. snd (excel2bsdd lit T excel) = Inl e"
proof (cases "snd (excel2bsdd lit T excel)")
  case (Inl e)
  then show ?thesis by simp
next
  case (Inr b)
  have False
  proof (rule excel2bsdd_tree [OF Inr], goal_cases)
    case (1 d doms cs ms prs cps crs pvs prels clss props)
    from jsonify_snd_length [OF 1(2)] jsonify_snd_length [OF 1(7)] 1(19) assms
    show ?case by auto
  qed
  then show ?thesis ..
qed

text \<open>
  Claim C3 does not hold of the code. Line 128 searches each classification as if it were
  a collection of objects; a classification is a dictionary, the search draws its keys,
  and subscripting a key with \<open>"Code"\<close> raises TypeError (StopIteration if the
  dictionary is empty). So a run with at least one classification row and at least one
  property value row never returns, also when the value's origin is the code of a
  property.
\<close>

theorem allowed_values_abort:
  "(classification excel \<noteq> [] \<and> propertyvalue excel \<noteq> []
      \<longrightarrow> (\<exists>e. snd (excel2bsdd literal_eval T excel) = Inl e))
   \<and> attach (VDict d) field related child = Inl (if d = [] then StopIteration else TypeError)
   \<and> excel2bsdd literal_eval_lists spec_templates example_value = ([], Inl TypeError)"
proof (intro conjI impI)
  assume "classification excel \<noteq> [] \<and> propertyvalue excel \<noteq> []"
  then show "\<exists>e. snd (excel2bsdd literal_eval T excel) = Inl e"
    by (simp add: values_need_no_classification)
next
  show "attach (VDict d) field related child = Inl (if d = [] then StopIteration else TypeError)"
    by (rule attach_dict_fails)
next
  show "excel2bsdd literal_eval_lists spec_templates example_value = ([], Inl TypeError)"
    by (simp add: link_simps run_simps example_value_def)
qed

theorem allowed_values_abort_witness:
  "classification example_value \<noteq> [] \<and> propertyvalue example_value \<noteq> []
   \<and> snd (excel2bsdd literal_eval_lists spec_templates example_value) = Inl TypeError"
  using allowed_values_abort [of example_value literal_eval_lists spec_templates "[]" "''''" VNone VNone]
  by (simp add: example_value_def empty_excel_def)

text \<open>
  Claim C6, as the code has it. Line 104 maps every row of the Domain sheet and takes
  the first result. A Domain sheet without rows makes the run fail with IndexError. A
  cell of any Domain row, the first or a further one, that stands in a recognised column
  and fails to parse makes the run fail. When no such cell stands in the further rows,
  they are ignored: the run ends as it does on the first row alone. Whenever the run
  returns, the Domain sheet has at least one row and the mapping of its first row is the
  root of the output: apart from the three lists attached to it, every key of the output
  is bound as in that mapping.
\<close>

theorem first_domain_row_is_root:
  "(domain excel = [] \<longrightarrow> excel2bsdd literal_eval T excel = ([], Inl IndexError))
   \<and> (row \<in> set (domain excel) \<and> (column_name, column_data) \<in> set row
        \<and> column_name \<in> set (keys (Domain_template T))
        \<and> coerce literal_eval column_data = Inl e
      \<longrightarrow> (\<exists>e'. snd (excel2bsdd literal_eval T excel) = Inl e'))
   \<and> (domain excel = first # further
        \<and> (\<forall>r \<in> set further. \<forall>(c, x) \<in> set r.
              c \<in> set (keys (Domain_template T)) \<longrightarrow> (\<exists>v. coerce literal_eval x = Inr v))
      \<longrightarrow> snd (excel2bsdd literal_eval T excel)
            = snd (excel2bsdd literal_eval T (excel\<lparr>domain := [first]\<rparr>)))
   \<and> (snd (excel2bsdd literal_eval T excel) = Inr bsdd_data \<longrightarrow>
        (\<exists>row rows new_part.
           domain excel = row # rows
         \<and> snd (fill literal_eval row (Domain_template T)) = Inr new_part
         \<and> (\<forall>k. k \<noteq> ''Classifications'' \<and> k \<noteq> ''Materials'' \<and> k \<noteq> ''Properties''
               \<longrightarrow> map_of bsdd_data k = map_of new_part k)))"
proof (intro conjI impI)
  assume "domain excel = []"
  then show "excel2bsdd literal_eval T excel = ([], Inl IndexError)"
    by (simp add: excel2bsdd_def and_then_def lift_def index0_def)
next
  assume a: "row \<in> set (domain excel) \<and> (column_name, column_data) \<in> set row
        \<and> column_name \<in> set (keys (Domain_template T))
        \<and> coerce literal_eval column_data = Inl e"
  then have "\<exists>e'. snd (jsonify literal_eval (domain excel) (Domain_template T)) = Inl e'"
    using jsonify_fails [of row "domain excel" column_name column_data "Domain_template T"
        literal_eval e] by simp
  then obtain e' where "snd (jsonify literal_eval (domain excel) (Domain_template T)) = Inl e'" ..
  then have "snd (excel2bsdd literal_eval T excel) = Inl e'"
    by (rule excel2bsdd_domain(1))
  then show "\<exists>e'. snd (excel2bsdd literal_eval T excel) = Inl e'" ..
next
  assume a: "domain excel = first # further
        \<and> (\<forall>r \<in> set further. \<forall>(c, x) \<in> set r.
              c \<in> set (keys (Domain_template T)) \<longrightarrow> (\<exists>v. coerce literal_eval x = Inr v))"
  show "snd (excel2bsdd literal_eval T excel)
            = snd (excel2bsdd literal_eval T (excel\<lparr>domain := [first]\<rparr>))"
    by (rule first_row_alone [OF a [THEN conjunct1] a [THEN conjunct2]])
next
  assume run: "snd (excel2bsdd literal_eval T excel) = Inr bsdd_data"
  show "\<exists>row rows new_part.
           domain excel = row # rows
         \<and> snd (fill literal_eval row (Domain_template T)) = Inr new_part
         \<and> (\<forall>k. k \<noteq> ''Classifications'' \<and> k \<noteq> ''Materials'' \<and> k \<noteq> ''Properties''
               \<longrightarrow> map_of bsdd_data k = map_of new_part k)"
  proof (rule excel2bsdd_tree [OF run], goal_cases)
    case (1 d doms cs ms prs cps crs pvs prels clss props)
    from jsonify_first [OF 1(1)] obtain row rows where
      "domain excel = row # rows" "snd (fill literal_eval row (Domain_template T)) = Inr d"
      by blast
    with 1(14) show ?case by blast
  qed
qed

theorem first_domain_row_is_root_witness:
  "domain empty_excel = []
   \<and> excel2bsdd literal_eval_lists spec_templates empty_excel = ([], Inl IndexError)
   \<and> domain example_second_domain_fails
       = [[(''DomainName'', CStr ''first'')], [(''DomainName'', CStr ''Length [mm]'')]]
   \<and> coerce literal_eval_lists (CStr ''Length [mm]'') = Inl LiteralError
   \<and> snd (excel2bsdd literal_eval_lists spec_templates example_second_domain_fails)
       = Inl LiteralError
   \<and> domain example_two_domains
       = [[(''DomainName'', CStr ''first'')], [(''DomainName'', CStr ''second'')]]
   \<and> coerce literal_eval_lists (CStr ''second'') = Inr (VStr ''second'')
   \<and> snd (excel2bsdd literal_eval_lists spec_templates example_two_domains)
       = snd (excel2bsdd literal_eval_lists spec_templates
                (example_two_domains\<lparr>domain := [[(''DomainName'', CStr ''first'')]]\<rparr>))
   \<and> snd (excel2bsdd literal_eval_lists spec_templates example_two_domains)
       = Inr [(''DomainName'', VStr ''first''), (''Classifications'', VList []),
              (''Materials'', VList []), (''Properties'', VList [])]
   \<and> snd (fill literal_eval_lists [(''DomainName'', CStr ''first'')]
             (Domain_template spec_templates))
       = Inr [(''DomainName'', VStr ''first'')]"
  using first_domain_row_is_root
      [of empty_excel literal_eval_lists spec_templates "[]" "''''" CNaN LiteralError "[]" "[]" "[]"]
    first_domain_row_is_root
      [of example_second_domain_fails literal_eval_lists spec_templates
        "[(''DomainName'', CStr ''Length [mm]'')]" "''DomainName''" "CStr ''Length [mm]''"
        LiteralError "[(''DomainName'', CStr ''first'')]"
        "[[(''DomainName'', CStr ''Length [mm]'')]]" "[]"]
    first_domain_row_is_root
      [of example_two_domains literal_eval_lists spec_templates
        "[]" "''''" CNaN LiteralError "[(''DomainName'', CStr ''first'')]"
        "[[(''DomainName'', CStr ''second'')]]"
        "[(''DomainName'', VStr ''first''), (''Classifications'', VList []),
          (''Materials'', VList []), (''Properties'', VList [])]"]
  by (simp add: link_simps run_simps example_two_domains_def example_second_domain_fails_def)

text \<open>
  The claim fails where it makes a second Domain row fatal: the run returns, with the
  first row as the root.
\<close>

theorem two_domain_rows_counterexample:
  "length (domain example_two_domains) = 2
   \<and> excel2bsdd literal_eval_lists spec_templates example_two_domains =
       ([], Inr [(''DomainName'', VStr ''first''), (''Classifications'', VList []),
                 (''Materials'', VList []), (''Properties'', VList [])])"
  by (simp add: link_simps run_simps example_two_domains_def)

text \<open>
  Claim C9 does not hold of the code. Called as
  \<open>python Excel2bSDD_converter.py source destination flag\<close>, the main block reads the
  workbook from \<open>sys.argv[0]\<close>, the path of the script, writes the document to the
  source path, and takes the destination path for the flag: it prunes only when that
  text is empty, and never looks at the flag.
\<close>

theorem main_reads_shifted_arguments:
  "main load_excel literal_eval T [script, source, destination, flag] =
     and_then (lift (load_excel script)) (\<lambda>excel.
     and_then (excel2bsdd literal_eval T excel) (\<lambda>bsdd_data.
     ([], Inr (source, if destination = [] then clean_nones (VDict bsdd_data)
                       else VDict bsdd_data))))
   \<and> main example_loader literal_eval_lists spec_templates
        [''Excel2bSDD_converter.py'', ''in.xlsx'', ''out.json'', ''''] = ([], Inl IOError)
   \<and> main (\<lambda>path. Inr example_two_domains) literal_eval_lists spec_templates
        [''Excel2bSDD_converter.py'', ''in.xlsx'', ''out.json'', '''']
       = ([], Inr (''in.xlsx'',
                   VDict [(''DomainName'', VStr ''first''), (''Classifications'', VList []),
                          (''Materials'', VList []), (''Properties'', VList [])]))"
  by (simp add: main_def argv_at_def lift_def and_then_def example_loader_def
      excel2bsdd_def link_def link_value_def attach_def index0_def dict_pop_def
      spec_templates_def empty_excel_def example_domain_def Let_def
      coerce_def keys_def example_two_domains_def)

theorem main_reads_shifted_arguments_witness:
  "main example_loader literal_eval_lists spec_templates [''in.xlsx'', ''out.json'', [], ''x'']
     = ([], Inr (''out.json'',
           VDict [(''DomainName'', VStr ''Demo''),
            (''Classifications'',
             VList [VDict [(''Code'', VStr ''A1''), (''Name'', VStr ''Wall''),
                           (''ClassificationProperties'',
                            VList [VDict [(''PropertyCode'', VStr ''height'')],
                                   VDict [(''PropertyCode'', VStr ''width'')]]),
                           (''ClassificationRelations'', VList []),
                           (''AllowedValues'', VList [])]]),
            (''Materials'', VList []), (''Properties'', VList [])]))"
  using main_reads_shifted_arguments
    [of example_loader literal_eval_lists spec_templates "''in.xlsx''" "''out.json''" "[]" "''x''"]
  by (simp add: link_simps run_simps example_loader_def example_A1_def)

section \<open>The null pruner\<close>

lemma clean_nones_eq_None [simp]: "clean_nones v = VNone \<longleftrightarrow> v = VNone"
  by (cases v) simp_all

lemma no_nones_clean: "no_nones (clean_nones v)"
  by (induction v rule: clean_nones.induct) (auto simp: list_all_iff)


lemma clean_nones_fixed: "no_nones v \<Longrightarrow> clean_nones v = v"
proof (induction v rule: clean_nones.induct)
  case (1 xs)
  then have f: "filter (\<lambda>x. x \<noteq> VNone) xs = xs" by (auto simp: list_all_iff)
  have "map clean_nones xs = xs"
    using 1 f by (auto simp: list_all_iff intro!: map_idI)
  then show ?case using f by simp
next
  case (2 d)
  then have f: "filter (\<lambda>(key, val). val \<noteq> VNone) d = d"
    by (auto simp: list_all_iff intro!: filter_True)
  have "map (\<lambda>(key, val). (key, clean_nones val)) d = d"
    using 2 f by (auto simp: list_all_iff intro!: map_idI)
  then show ?case using f by simp
qed simp_all

lemma leaves_clean:
  "v \<noteq> VNone \<Longrightarrow> leaves (clean_nones v) = filter (\<lambda>x. x \<noteq> VNone) (leaves v)"
proof (induction v rule: clean_nones.induct)
  case (1 xs)
  have "concat (map (leaves \<circ> clean_nones) (filter (\<lambda>x. x \<noteq> VNone) xs))
      = concat (map (\<lambda>x. filter (\<lambda>x. x \<noteq> VNone) (leaves x)) (filter (\<lambda>x. x \<noteq> VNone) xs))"
    using 1 by (auto intro!: arg_cong[where f=concat])
  also have "\<dots> = concat (map (\<lambda>x. filter (\<lambda>x. x \<noteq> VNone) (leaves x)) xs)"
    by (induction xs) auto
  finally show ?case by (simp add: filter_concat comp_def)
next
  case (2 d)
  have "concat (map ((\<lambda>(key, val). leaves val) \<circ> (\<lambda>(key, val). (key, clean_nones val)))
                  (filter (\<lambda>(key, val). val \<noteq> VNone) d))
      = concat (map (\<lambda>(key, val). filter (\<lambda>x. x \<noteq> VNone) (leaves val))
                  (filter (\<lambda>(key, val). val \<noteq> VNone) d))"
    using 2 by (auto intro!: arg_cong[where f=concat])
  also have "\<dots> = concat (map (\<lambda>(key, val). filter (\<lambda>x. x \<noteq> VNone) (leaves val)) d)"
    by (induction d) auto
  finally show ?case by (simp add: filter_concat comp_def case_prod_unfold)
qed simp_all



text \<open>
  Claim C8. Pruning twice is pruning once, and what survives keeps its order: the
  elements of a pruned list are the pruned images of a subsequence of the elements of
  the list, the keys of a pruned dictionary are a subsequence of its keys, and the
  scalars of the pruned tree are the non-null scalars of the tree in the same order.
\<close>

theorem clean_nones_idempotent_ordered:
  "clean_nones (clean_nones v) = clean_nones v
   \<and> (\<exists>zs. subseq zs xs \<and> clean_nones (VList xs) = VList (map clean_nones zs))
   \<and> (\<exists>d'. subseq (map fst d') (map fst d) \<and> clean_nones (VDict d) = VDict d')
   \<and> (v \<noteq> VNone \<longrightarrow> leaves (clean_nones v) = filter (\<lambda>x. x \<noteq> VNone) (leaves v))"
proof -
  have idem: "clean_nones (clean_nones v) = clean_nones v"
    by (rule clean_nones_fixed) (rule no_nones_clean)
  have "subseq (filter (\<lambda>x. x \<noteq> VNone) xs) xs" by simp
  then have lists: "\<exists>zs. subseq zs xs \<and> clean_nones (VList xs) = VList (map clean_nones zs)"
    by (intro exI [of _ "filter (\<lambda>x. x \<noteq> VNone) xs"]) simp
  have "map fst (map (\<lambda>(key, val). (key, clean_nones val)) (filter (\<lambda>(key, val). val \<noteq> VNone) d))
        = map fst (filter (\<lambda>(key, val). val \<noteq> VNone) d)"
    by (simp add: case_prod_unfold comp_def)
  moreover have "subseq (map fst (filter (\<lambda>(key, val). val \<noteq> VNone) d)) (map fst d)"
    by (simp add: subseq_map)
  ultimately have "subseq (map fst (map (\<lambda>(key, val). (key, clean_nones val))
                                      (filter (\<lambda>(key, val). val \<noteq> VNone) d))) (map fst d)"
    by (simp only:)
  then have dicts:
    "\<exists>d'. subseq (map fst d') (map fst d) \<and> clean_nones (VDict d) = VDict d'"
    by (intro exI [of _ "map (\<lambda>(key, val). (key, clean_nones val))
                            (filter (\<lambda>(key, val). val \<noteq> VNone) d)"] conjI)
       (assumption, simp)
  show ?thesis using idem lists dicts leaves_clean by blast
qed

theorem clean_nones_idempotent_ordered_witness:
  "VList [VInt 1, VNone, VList [VNone, VStr ''a'']] \<noteq> VNone
   \<and> leaves (clean_nones (VList [VInt 1, VNone, VList [VNone, VStr ''a'']])) = [VInt 1, VStr ''a'']
   \<and> clean_nones (clean_nones (VList [VInt 1, VNone, VList [VNone, VStr ''a'']]))
       = VList [VInt 1, VList [VStr ''a'']]"
  using clean_nones_idempotent_ordered [of "VList [VInt 1, VNone, VList [VNone, VStr ''a'']]" "[]" "[]"]
  by simp

section \<open>The copies of the template\<close>
































end
